theory Spec2Isabelle
  imports Complex_Main "HOL-Library.Sublist"
begin

section \<open>Tensors\<close>

text \<open>
  A tensor of the numeric library is a shape together with its elements in row-major
  (contiguous) order.  The functions of the layer are first embedded on such values; which
  tensors share storage is the subject of the last section of definitions.
\<close>

datatype error = RuntimeError | IndexError | AttributeError | TypeError

record 'a tensor =
  shape :: "nat list"
  data :: "'a list"

definition ebind :: "error + 'a \<Rightarrow> ('a \<Rightarrow> error + 'b) \<Rightarrow> error + 'b" where
  "ebind m f = (case m of Inl e \<Rightarrow> Inl e | Inr v \<Rightarrow> f v)"

definition numel :: "'a tensor \<Rightarrow> nat" where
  "numel t = prod_list (shape t)"

text \<open>Row-major position of a multi-index, and the multi-index of a position.\<close>

fun ravel :: "nat list \<Rightarrow> nat list \<Rightarrow> nat" where
  "ravel (n # ns) (i # is) = i * prod_list ns + ravel ns is"
| "ravel _ _ = 0"

fun unravel :: "nat list \<Rightarrow> nat \<Rightarrow> nat list" where
  "unravel [] k = []"
| "unravel (n # ns) k = (k div prod_list ns) # unravel ns (k mod prod_list ns)"

definition valid_index :: "nat list \<Rightarrow> nat list \<Rightarrow> bool" where
  "valid_index sh idx = list_all2 (\<lambda>i n. i < n) idx sh"

definition elem :: "'a tensor \<Rightarrow> nat list \<Rightarrow> 'a" where
  "elem t idx = data t ! ravel (shape t) idx"

definition tabulate :: "nat list \<Rightarrow> (nat list \<Rightarrow> 'a) \<Rightarrow> 'a tensor" where
  "tabulate sh f = \<lparr>shape = sh, data = map (\<lambda>k. f (unravel sh k)) [0..<prod_list sh]\<rparr>"

definition well_formed :: "'a tensor \<Rightarrow> bool" where
  "well_formed t = (length (data t) = prod_list (shape t))"

text \<open>\<^verbatim>\<open>t.size(i)\<close>: the length of dimension \<open>i\<close>; a dimension the tensor does not have
  raises IndexError.\<close>

definition size_t :: "'a tensor \<Rightarrow> nat \<Rightarrow> error + nat" where
  "size_t t i = (if i < length (shape t) then Inr (shape t ! i) else Inl IndexError)"

text \<open>
  \<^verbatim>\<open>t.unfold(d, size, step)\<close>: all slices of length \<open>size\<close> of dimension \<open>d\<close>, taken
  every \<open>step\<close> positions.  Dimension \<open>d\<close> shrinks to \<open>(n - size) div step + 1\<close> and a new
  last dimension of length \<open>size\<close> is appended.  The library refuses a window longer than
  the dimension and a step that is not positive.
\<close>

definition window_index :: "nat \<Rightarrow> nat \<Rightarrow> nat list \<Rightarrow> nat list" where
  "window_index d step idx = (butlast idx)[d := (idx ! d) * step + last idx]"

definition unfold :: "'a tensor \<Rightarrow> nat \<Rightarrow> int \<Rightarrow> int \<Rightarrow> error + 'a tensor" where
  "unfold t d sz step =
     (if length (shape t) \<le> d then Inl IndexError
      else if int (shape t ! d) < sz then Inl RuntimeError
      else if step \<le> 0 then Inl RuntimeError
      else if sz < 0 then Inl RuntimeError
      else Inr (tabulate
              ((shape t)[d := nat ((int (shape t ! d) - sz) div step + 1)] @ [nat sz])
              (\<lambda>idx. elem t (window_index d (nat step) idx))))"

text \<open>
  \<^verbatim>\<open>t.permute(p0, p1, ...)\<close>: dimension \<open>k\<close> of the result is dimension \<open>p\<^sub>k\<close> of \<open>t\<close>.
\<close>

definition index_of :: "nat list \<Rightarrow> nat \<Rightarrow> nat" where
  "index_of perm j = length (takeWhile (\<lambda>p. p \<noteq> j) perm)"

definition source_index :: "nat list \<Rightarrow> nat list \<Rightarrow> nat list" where
  "source_index perm idx = map (\<lambda>j. idx ! index_of perm j) [0..<length perm]"

definition permute :: "'a tensor \<Rightarrow> nat list \<Rightarrow> error + 'a tensor" where
  "permute t perm =
     (if length perm = length (shape t) \<and> distinct perm
         \<and> list_all (\<lambda>p. p < length perm) perm
      then Inr (tabulate (map (\<lambda>p. shape t ! p) perm)
              (\<lambda>idx. elem t (source_index perm idx)))
      else Inl RuntimeError)"

text \<open>
  \<^verbatim>\<open>t.contiguous()\<close> lays the elements out in row-major order, which is how \<open>data\<close> holds
  them already.  \<^verbatim>\<open>t.view(d0, d1, ...)\<close> keeps the elements and reads them under a new
  shape; one entry may be \<open>-1\<close> and is then inferred from the number of elements, which the
  library refuses when the other entries multiply to zero.
\<close>

definition contiguous :: "'a tensor \<Rightarrow> 'a tensor" where
  "contiguous t = t"

definition infer_size :: "int list \<Rightarrow> nat \<Rightarrow> error + nat list" where
  "infer_size dims n =
     (if list_ex (\<lambda>d. d < - 1) dims \<or> 1 < length (filter (\<lambda>d. d = - 1) dims)
      then Inl RuntimeError
      else let newsize = nat (prod_list (filter (\<lambda>d. d \<noteq> - 1) dims)) in
        if list_ex (\<lambda>d. d = - 1) dims then
          (if 0 < newsize \<and> n mod newsize = 0
           then Inr (map (\<lambda>d. if d = - 1 then n div newsize else nat d) dims)
           else Inl RuntimeError)
        else if n = newsize then Inr (map nat dims) else Inl RuntimeError)"

definition view :: "'a tensor \<Rightarrow> int list \<Rightarrow> error + 'a tensor" where
  "view t dims = (case infer_size dims (numel t) of
                    Inl e \<Rightarrow> Inl e
                  | Inr sh \<Rightarrow> Inr (t\<lparr>shape := sh\<rparr>))"

text \<open>
  \<^verbatim>\<open>torch.split(t, n, dim=d)\<close>: consecutive chunks of \<open>n\<close> positions of dimension \<open>d\<close>
  (the last one shorter when \<open>n\<close> does not divide the dimension; one empty chunk for an
  empty dimension).
\<close>

definition split :: "'a tensor \<Rightarrow> nat \<Rightarrow> nat \<Rightarrow> error + 'a tensor list" where
  "split t n d =
     (if length (shape t) \<le> d then Inl IndexError
      else if n = 0 then (if shape t ! d = 0 then Inr [t] else Inl RuntimeError)
      else Inr (map (\<lambda>k. tabulate ((shape t)[d := min n (shape t ! d - k * n)])
                          (\<lambda>idx. elem t (idx[d := k * n + idx ! d])))
                  [0..<max 1 ((shape t ! d + n - 1) div n)]))"

text \<open>
  \<^verbatim>\<open>torch.cat(ts, dim=d)\<close>: the tensors one after the other along dimension \<open>d\<close>; they
  must agree on every other dimension.
\<close>

fun cat_elem :: "'a tensor \<Rightarrow> 'a tensor list \<Rightarrow> nat \<Rightarrow> nat list \<Rightarrow> 'a" where
  "cat_elem t [] d idx = elem t idx"
| "cat_elem t (u # us) d idx =
     (if idx ! d < shape t ! d then elem t idx
      else cat_elem u us d (idx[d := idx ! d - shape t ! d]))"

definition cat :: "'a tensor list \<Rightarrow> nat \<Rightarrow> error + 'a tensor" where
  "cat ts d =
     (case ts of
        [] \<Rightarrow> Inl RuntimeError
      | t # us \<Rightarrow>
          if length (shape t) \<le> d then Inl IndexError
          else if list_ex (\<lambda>u. (shape u)[d := 0] \<noteq> (shape t)[d := 0]) us then Inl RuntimeError
          else Inr (tabulate ((shape t)[d := sum_list (map (\<lambda>u. shape u ! d) ts)])
                      (cat_elem t us d)))"

text \<open>\<^verbatim>\<open>t[i]\<close>: the sub-tensor at position \<open>i\<close> of the first dimension.\<close>

definition select :: "'a tensor \<Rightarrow> nat \<Rightarrow> error + 'a tensor" where
  "select t i =
     (case shape t of
        [] \<Rightarrow> Inl IndexError
      | n # ns \<Rightarrow> if i < n then Inr (tabulate ns (\<lambda>idx. elem t (i # idx))) else Inl IndexError)"

text \<open>\<^verbatim>\<open>torch.zeros(d0, d1, ...)\<close>.  The device a tensor lives on is not modelled.\<close>

definition zeros :: "nat list \<Rightarrow> ('a::zero) tensor" where
  "zeros sh = \<lparr>shape = sh, data = replicate (prod_list sh) 0\<rparr>"

section \<open>The recurrent networks of the library\<close>

text \<open>
  The layer owns two bidirectional recurrent networks of the numeric library, built with
  \<^verbatim>\<open>batch_first=True\<close>.  Such a module is called with an input of shape
  \<open>(N, L, input_size)\<close>, \<open>N\<close> independent sequences of length \<open>L\<close>, and an initial state of
  shape \<open>(2 * num_layers, N, hidden_size)\<close> (a pair of them, hidden and cell state, for the
  memory-cell variant); it returns an output of shape \<open>(N, L, 2 * hidden_size)\<close> and a final
  state that the layer discards.  The names of its parameters are in \<open>all_weights\<close>, one
  list per stacked layer and direction, and \<open>params\<close> holds their values.  What the network
  computes on one sequence is the field \<open>run\<close>: from the parameter values, the initial state
  of that sequence (and the initial cell state, if any) and the \<open>L\<close> input vectors to the
  \<open>L\<close> output vectors.  Dropout between stacked layers is not modelled.
\<close>

record 'a rnn_module =
  mode :: string
  input_size :: nat
  hidden_size :: nat
  num_layers :: nat
  all_weights :: "string list list"
  params :: "string \<Rightarrow> 'a tensor option"
  run :: "(string \<Rightarrow> 'a tensor option) \<Rightarrow> 'a list list \<Rightarrow> 'a list list option
            \<Rightarrow> 'a list list \<Rightarrow> 'a list list"

datatype 'a hidden = Hidden "'a tensor" | HiddenCell "'a tensor" "'a tensor"

definition hidden_ok :: "'a rnn_module \<Rightarrow> nat \<Rightarrow> 'a hidden \<Rightarrow> bool" where
  "hidden_ok m n hx =
     (case hx of
        Hidden h \<Rightarrow> mode m \<noteq> ''LSTM'' \<and> shape h = [2 * num_layers m, n, hidden_size m]
      | HiddenCell h c \<Rightarrow> mode m = ''LSTM''
          \<and> shape h = [2 * num_layers m, n, hidden_size m]
          \<and> shape c = [2 * num_layers m, n, hidden_size m])"

definition sequence_of :: "'a tensor \<Rightarrow> nat \<Rightarrow> 'a list list" where
  "sequence_of inp n =
     map (\<lambda>l. map (\<lambda>k. elem inp [n, l, k]) [0..<shape inp ! 2]) [0..<shape inp ! 1]"

definition state_of :: "'a tensor \<Rightarrow> nat \<Rightarrow> 'a list list" where
  "state_of h n =
     map (\<lambda>j. map (\<lambda>k. elem h [j, n, k]) [0..<shape h ! 2]) [0..<shape h ! 0]"

definition run_on :: "'a rnn_module \<Rightarrow> 'a tensor \<Rightarrow> 'a hidden \<Rightarrow> nat \<Rightarrow> 'a list list" where
  "run_on m inp hx n =
     (case hx of
        Hidden h \<Rightarrow> run m (params m) (state_of h n) None (sequence_of inp n)
      | HiddenCell h c \<Rightarrow>
          run m (params m) (state_of h n) (Some (state_of c n)) (sequence_of inp n))"

definition rnn_call :: "'a rnn_module \<Rightarrow> 'a tensor \<Rightarrow> 'a hidden \<Rightarrow> error + 'a tensor" where
  "rnn_call m inp hx =
     (case shape inp of
        [n, l, f] \<Rightarrow>
          if f \<noteq> input_size m then Inl RuntimeError
          else if \<not> hidden_ok m n hx then Inl RuntimeError
          else Inr (tabulate [n, l, 2 * hidden_size m]
                      (\<lambda>idx. run_on m inp hx (idx ! 0) ! (idx ! 1) ! (idx ! 2)))
      | _ \<Rightarrow> Inl RuntimeError)"

record rnn_kwargs =
  bidirectional :: bool
  batch_first :: bool
  kw_num_layers :: nat
  kw_dropout :: real
  kw_bias :: bool

type_synonym 'a constructor = "nat \<Rightarrow> nat \<Rightarrow> rnn_kwargs \<Rightarrow> error + 'a rnn_module"

text \<open>
  The recurrent classes of the library name their parameters
  \<^verbatim>\<open>weight_ih_l{k}{suffix}\<close>, \<^verbatim>\<open>weight_hh_l{k}{suffix}\<close> and, with \<^verbatim>\<open>bias=True\<close>,
  \<^verbatim>\<open>bias_ih_l{k}{suffix}\<close>, \<^verbatim>\<open>bias_hh_l{k}{suffix}\<close>, for each stacked layer \<open>k\<close> and each
  direction, the suffix being \<^verbatim>\<open>_reverse\<close> for the backward direction.  The weight of
  the input has one row per gate unit and one column per input feature (the features of
  layer 0 are the input's, those of a higher layer the \<open>2 * hidden_size\<close> outputs of the
  layer below).
\<close>

function show_nat :: "nat \<Rightarrow> string" where
  "show_nat n =
     (if n < 10 then [''0123456789'' ! n]
      else show_nat (n div 10) @ [''0123456789'' ! (n mod 10)])"
  by pat_completeness auto
termination
  by (relation "measure (\<lambda>n. n)") auto

declare show_nat.simps [simp del]

definition gate_size :: "string \<Rightarrow> nat \<Rightarrow> nat" where
  "gate_size name hidden =
     (if name = ''LSTM'' then 4 * hidden else if name = ''GRU'' then 3 * hidden else hidden)"

definition param_table :: "string \<Rightarrow> nat \<Rightarrow> nat \<Rightarrow> nat \<Rightarrow> bool \<Rightarrow> (string \<times> nat list) list list" where
  "param_table name inp hidden layers bias =
     concat (map (\<lambda>k. map (\<lambda>sfx.
         [(''weight_ih_l'' @ show_nat k @ sfx,
             [gate_size name hidden, if k = 0 then inp else 2 * hidden]),
          (''weight_hh_l'' @ show_nat k @ sfx, [gate_size name hidden, hidden])]
         @ (if bias
            then [(''bias_ih_l'' @ show_nat k @ sfx, [gate_size name hidden]),
                  (''bias_hh_l'' @ show_nat k @ sfx, [gate_size name hidden])]
            else []))
       [[], ''_reverse'']) [0..<layers])"

text \<open>
  The constructor of a recurrent class: \<open>fresh\<close> is the library's default initial value of
  a parameter of a given shape and \<open>recurrence\<close> what the class computes on a sequence.
  The keyword arguments \<^verbatim>\<open>bidirectional\<close> and \<^verbatim>\<open>batch_first\<close> are always true in
  this layer, and \<open>rnn_call\<close> above is the call of a module built so.
\<close>

definition RNNBase ::
  "string \<Rightarrow>
   ((string \<Rightarrow> 'a tensor option) \<Rightarrow> 'a list list \<Rightarrow> 'a list list option \<Rightarrow> 'a list list
      \<Rightarrow> 'a list list) \<Rightarrow>
   (nat list \<Rightarrow> 'a tensor) \<Rightarrow> nat \<Rightarrow> nat \<Rightarrow> rnn_kwargs \<Rightarrow> error + 'a rnn_module" where
  "RNNBase name recurrence fresh inp hidden kw =
     Inr \<lparr>mode = name, input_size = inp, hidden_size = hidden, num_layers = kw_num_layers kw,
          all_weights =
            map (map fst) (param_table name inp hidden (kw_num_layers kw) (kw_bias kw)),
          params =
            map_of (map (\<lambda>(p, sh). (p, fresh sh))
              (concat (param_table name inp hidden (kw_num_layers kw) (kw_bias kw)))),
          run = recurrence\<rparr>"

text \<open>
  The three recurrent classes of the library, over the reals and without dropout.  In each
  direction of layer \<open>k\<close> the state is updated at every step from the input \<open>x\<close> and the
  previous state \<open>h\<close>, the backward direction reading the sequence from its end; the output
  at a step is the forward state followed by the backward state, and it is the input of
  the layer above.  A unit \<open>j\<close> of a gate reads row \<open>j\<close> of the stacked weights:
  \<^item> \<^verbatim>\<open>RNN\<close>: \<open>h' = tanh (W\<^sub>i\<^sub>h x + b\<^sub>i\<^sub>h + W\<^sub>h\<^sub>h h + b\<^sub>h\<^sub>h)\<close>;
  \<^item> \<^verbatim>\<open>GRU\<close>, gates \<open>r, z, n\<close> stacked in this order:
    \<open>r = \<sigma> (W\<^sub>i\<^sub>r x + b\<^sub>i\<^sub>r + W\<^sub>h\<^sub>r h + b\<^sub>h\<^sub>r)\<close>, \<open>z\<close> likewise,
    \<open>n = tanh (W\<^sub>i\<^sub>n x + b\<^sub>i\<^sub>n + r * (W\<^sub>h\<^sub>n h + b\<^sub>h\<^sub>n))\<close>, \<open>h' = (1 - z) * n + z * h\<close>;
  \<^item> \<^verbatim>\<open>LSTM\<close>, gates \<open>i, f, g, o\<close> stacked in this order, \<open>i, f, o\<close> through \<open>\<sigma>\<close> and \<open>g\<close>
    through \<open>tanh\<close>: \<open>c' = f * c + i * g\<close>, \<open>h' = o * tanh c'\<close>.
\<close>

definition weight_at :: "(string \<Rightarrow> real tensor option) \<Rightarrow> string \<Rightarrow> nat list \<Rightarrow> real" where
  "weight_at ps p idx = (case ps p of None \<Rightarrow> 0 | Some t \<Rightarrow> elem t idx)"

definition sigmoid :: "real \<Rightarrow> real" where
  "sigmoid x = 1 / (1 + exp (- x))"

definition lin_ih ::
  "(string \<Rightarrow> real tensor option) \<Rightarrow> nat \<Rightarrow> string \<Rightarrow> nat \<Rightarrow> real list \<Rightarrow> real" where
  "lin_ih ps k sfx j x =
     sum_list (map (\<lambda>i. weight_at ps (''weight_ih_l'' @ show_nat k @ sfx) [j, i] * x ! i)
                 [0..<length x])
     + weight_at ps (''bias_ih_l'' @ show_nat k @ sfx) [j]"

definition lin_hh ::
  "(string \<Rightarrow> real tensor option) \<Rightarrow> nat \<Rightarrow> string \<Rightarrow> nat \<Rightarrow> real list \<Rightarrow> real" where
  "lin_hh ps k sfx j h =
     sum_list (map (\<lambda>i. weight_at ps (''weight_hh_l'' @ show_nat k @ sfx) [j, i] * h ! i)
                 [0..<length h])
     + weight_at ps (''bias_hh_l'' @ show_nat k @ sfx) [j]"

definition elman_step ::
  "(string \<Rightarrow> real tensor option) \<Rightarrow> nat \<Rightarrow> string \<Rightarrow> nat \<Rightarrow> real list \<Rightarrow> real list \<Rightarrow> real list" where
  "elman_step ps k sfx hidden h x =
     map (\<lambda>j. tanh (lin_ih ps k sfx j x + lin_hh ps k sfx j h)) [0..<hidden]"

definition gru_step ::
  "(string \<Rightarrow> real tensor option) \<Rightarrow> nat \<Rightarrow> string \<Rightarrow> nat \<Rightarrow> real list \<Rightarrow> real list \<Rightarrow> real list" where
  "gru_step ps k sfx hidden h x =
     map (\<lambda>j.
        let r = sigmoid (lin_ih ps k sfx j x + lin_hh ps k sfx j h);
            z = sigmoid (lin_ih ps k sfx (hidden + j) x + lin_hh ps k sfx (hidden + j) h);
            n = tanh (lin_ih ps k sfx (2 * hidden + j) x
                      + r * lin_hh ps k sfx (2 * hidden + j) h)
        in (1 - z) * n + z * h ! j) [0..<hidden]"

definition lstm_step ::
  "(string \<Rightarrow> real tensor option) \<Rightarrow> nat \<Rightarrow> string \<Rightarrow> nat \<Rightarrow> real list \<times> real list \<Rightarrow> real list
     \<Rightarrow> real list \<times> real list" where
  "lstm_step ps k sfx hidden hc x =
     (let h = fst hc; c = snd hc;
          gate_i = (\<lambda>j. sigmoid (lin_ih ps k sfx j x + lin_hh ps k sfx j h));
          gate_f = (\<lambda>j. sigmoid (lin_ih ps k sfx (hidden + j) x
                                  + lin_hh ps k sfx (hidden + j) h));
          gate_g = (\<lambda>j. tanh (lin_ih ps k sfx (2 * hidden + j) x
                               + lin_hh ps k sfx (2 * hidden + j) h));
          gate_o = (\<lambda>j. sigmoid (lin_ih ps k sfx (3 * hidden + j) x
                                  + lin_hh ps k sfx (3 * hidden + j) h));
          c' = map (\<lambda>j. gate_f j * c ! j + gate_i j * gate_g j) [0..<hidden]
      in (map (\<lambda>j. gate_o j * tanh (c' ! j)) [0..<hidden], c'))"

fun scan :: "('s \<Rightarrow> 'x \<Rightarrow> 's) \<Rightarrow> 's \<Rightarrow> 'x list \<Rightarrow> 's list" where
  "scan f h [] = []"
| "scan f h (x # xs) = f h x # scan f (f h x) xs"

definition bidirectional_layer ::
  "('s \<Rightarrow> real list \<Rightarrow> 's) \<Rightarrow> ('s \<Rightarrow> real list \<Rightarrow> 's) \<Rightarrow> ('s \<Rightarrow> real list) \<Rightarrow> 's \<Rightarrow> 's
     \<Rightarrow> real list list \<Rightarrow> real list list" where
  "bidirectional_layer forwards backwards output s0 s1 xs =
     map2 (@) (map output (scan forwards s0 xs))
              (rev (map output (scan backwards s1 (rev xs))))"

fun elman_stack ::
  "(string \<Rightarrow> real tensor option) \<Rightarrow> nat \<Rightarrow> nat \<Rightarrow> real list list \<Rightarrow> real list list
     \<Rightarrow> real list list" where
  "elman_stack ps hidden 0 h0 xs = xs"
| "elman_stack ps hidden (Suc k) h0 xs =
     bidirectional_layer (elman_step ps k [] hidden) (elman_step ps k ''_reverse'' hidden)
       (\<lambda>h. h) (h0 ! (2 * k)) (h0 ! (2 * k + 1)) (elman_stack ps hidden k h0 xs)"

fun gru_stack ::
  "(string \<Rightarrow> real tensor option) \<Rightarrow> nat \<Rightarrow> nat \<Rightarrow> real list list \<Rightarrow> real list list
     \<Rightarrow> real list list" where
  "gru_stack ps hidden 0 h0 xs = xs"
| "gru_stack ps hidden (Suc k) h0 xs =
     bidirectional_layer (gru_step ps k [] hidden) (gru_step ps k ''_reverse'' hidden)
       (\<lambda>h. h) (h0 ! (2 * k)) (h0 ! (2 * k + 1)) (gru_stack ps hidden k h0 xs)"

fun lstm_stack ::
  "(string \<Rightarrow> real tensor option) \<Rightarrow> nat \<Rightarrow> nat \<Rightarrow> real list list \<Rightarrow> real list list
     \<Rightarrow> real list list \<Rightarrow> real list list" where
  "lstm_stack ps hidden 0 h0 c0 xs = xs"
| "lstm_stack ps hidden (Suc k) h0 c0 xs =
     bidirectional_layer (lstm_step ps k [] hidden) (lstm_step ps k ''_reverse'' hidden)
       fst (h0 ! (2 * k), c0 ! (2 * k)) (h0 ! (2 * k + 1), c0 ! (2 * k + 1))
       (lstm_stack ps hidden k h0 c0 xs)"

definition elman ::
  "(string \<Rightarrow> real tensor option) \<Rightarrow> real list list \<Rightarrow> real list list option \<Rightarrow> real list list
     \<Rightarrow> real list list" where
  "elman ps h0 c0 xs = elman_stack ps (length (h0 ! 0)) (length h0 div 2) h0 xs"

definition gru ::
  "(string \<Rightarrow> real tensor option) \<Rightarrow> real list list \<Rightarrow> real list list option \<Rightarrow> real list list
     \<Rightarrow> real list list" where
  "gru ps h0 c0 xs = gru_stack ps (length (h0 ! 0)) (length h0 div 2) h0 xs"

text \<open>The memory-cell class is only ever called with a cell state (see \<open>hidden_ok\<close>).\<close>

definition lstm ::
  "(string \<Rightarrow> real tensor option) \<Rightarrow> real list list \<Rightarrow> real list list option \<Rightarrow> real list list
     \<Rightarrow> real list list" where
  "lstm ps h0 c0 xs =
     (case c0 of
        None \<Rightarrow> []
      | Some c \<Rightarrow> lstm_stack ps (length (h0 ! 0)) (length h0 div 2) h0 c xs)"

text \<open>
  The names of the library's namespace that matter here: the three recurrent classes, and
  the linear class as an example of a class that is not recurrent, whose constructor has no
  keyword \<^verbatim>\<open>bidirectional\<close> and raises TypeError on it.  \<open>others\<close> stands for the rest of
  the namespace.
\<close>

definition torch_nn ::
  "(nat list \<Rightarrow> real tensor) \<Rightarrow> (string \<Rightarrow> real constructor option) \<Rightarrow> string
     \<Rightarrow> real constructor option" where
  "torch_nn fresh others name =
     (if name = ''RNN'' then Some (RNNBase ''RNN'' elman fresh)
      else if name = ''GRU'' then Some (RNNBase ''GRU'' gru fresh)
      else if name = ''LSTM'' then Some (RNNBase ''LSTM'' lstm fresh)
      else if name = ''Linear'' then Some (\<lambda>inp hidden kw. Inl TypeError)
      else others name)"

definition fill :: "'a \<Rightarrow> 'a tensor \<Rightarrow> 'a tensor" where
  "fill v t = \<lparr>shape = shape t, data = replicate (prod_list (shape t)) v\<rparr>"

section \<open>The layer\<close>

record 'a ReNetLayer =
  window_size :: "int \<times> int"
  rnn_type :: string
  hidden_dim :: nat
  firstVRNN :: "'a rnn_module"
  secondHRNN :: "'a rnn_module"
  stack_size :: "nat \<times> nat"

text \<open>
  The constructor looks the recurrent class up by name in the library's namespace and calls
  it twice with the same keyword arguments.  The namespace is a parameter of the model: a
  name it does not hold raises AttributeError, and what a name it holds does with the
  arguments is up to the class of that name.
\<close>

text \<open>\<^verbatim>\<open>'weight' in p\<close>: the substring test on parameter names.\<close>

fun contains :: "string \<Rightarrow> string \<Rightarrow> bool" where
  "contains sub [] = (sub = [])"
| "contains sub (c # cs) = (prefix sub (c # cs) \<or> contains sub cs)"

text \<open>
  \<^verbatim>\<open>apply(fn)\<close>: the two loops over the parameter names of a network, calling \<open>fn\<close> on the
  parameter of each name that contains \<^verbatim>\<open>weight\<close>.  \<open>fn\<close> works in place, so the
  parameter holds its result afterwards; a name without a parameter raises AttributeError.
\<close>

fun apply_names ::
  "('a tensor \<Rightarrow> 'a tensor) \<Rightarrow> 'a rnn_module \<Rightarrow> string list \<Rightarrow> error + 'a rnn_module" where
  "apply_names fn m [] = Inr m"
| "apply_names fn m (p # ps) =
     (if contains ''weight'' p then
        (case params m p of
           None \<Rightarrow> Inl AttributeError
         | Some t \<Rightarrow> apply_names fn (m\<lparr>params := (params m)(p \<mapsto> fn t)\<rparr>) ps)
      else apply_names fn m ps)"

fun apply_layers ::
  "('a tensor \<Rightarrow> 'a tensor) \<Rightarrow> 'a rnn_module \<Rightarrow> string list list \<Rightarrow> error + 'a rnn_module" where
  "apply_layers fn m [] = Inr m"
| "apply_layers fn m (layer_p # rest) =
     ebind (apply_names fn m layer_p) (\<lambda>m'. apply_layers fn m' rest)"

definition apply_fn :: "('a tensor \<Rightarrow> 'a tensor) \<Rightarrow> 'a ReNetLayer \<Rightarrow> error + 'a ReNetLayer" where
  "apply_fn fn self =
     ebind (apply_layers fn (firstVRNN self) (all_weights (firstVRNN self))) (\<lambda>first.
     ebind (apply_layers fn (secondHRNN self) (all_weights (secondHRNN self))) (\<lambda>second.
     Inr (self\<lparr>firstVRNN := first, secondHRNN := second\<rparr>)))"

definition ReNetLayer_init ::
  "(string \<Rightarrow> 'a constructor option) \<Rightarrow> ('a tensor \<Rightarrow> 'a tensor) \<Rightarrow>
   int \<Rightarrow> nat \<Rightarrow> string \<Rightarrow> nat \<times> nat \<Rightarrow> nat \<Rightarrow> bool \<Rightarrow> real \<Rightarrow> error + 'a ReNetLayer" where
  "ReNetLayer_init nn xavier_uniform window hidden rnn stack channel_size bias dropout =
     (case nn rnn of
        None \<Rightarrow> Inl AttributeError
      | Some make_first \<Rightarrow>
          ebind (make_first (nat (window * window * int channel_size)) hidden
                   \<lparr>bidirectional = True, batch_first = True, kw_num_layers = fst stack,
                    kw_dropout = dropout, kw_bias = bias\<rparr>) (\<lambda>first.
          (case nn rnn of
             None \<Rightarrow> Inl AttributeError
           | Some make_second \<Rightarrow>
               ebind (make_second (2 * hidden) hidden
                        \<lparr>bidirectional = True, batch_first = True, kw_num_layers = snd stack,
                         kw_dropout = dropout, kw_bias = bias\<rparr>) (\<lambda>second.
               apply_fn xavier_uniform
                 \<lparr>window_size = (window, window), rnn_type = rnn, hidden_dim = hidden,
                  firstVRNN = first, secondHRNN = second, stack_size = stack\<rparr>))))"

definition get_valid_patches :: "'a ReNetLayer \<Rightarrow> 'a tensor \<Rightarrow> error + 'a tensor" where
  "get_valid_patches self x =
     ebind (unfold x 2 (fst (window_size self)) (fst (window_size self))) (\<lambda>u.
     ebind (unfold u 3 (snd (window_size self)) (snd (window_size self))) (\<lambda>v.
     ebind (permute v [0, 2, 3, 1, 4, 5]) (\<lambda>patches.
     ebind (size_t patches 0) (\<lambda>s0.
     ebind (size_t patches 1) (\<lambda>s1.
     ebind (size_t patches 2) (\<lambda>s2.
     ebind (view (contiguous patches) [int s0, int s1, int s2, - 1]) (\<lambda>flat.
     permute flat [0, 3, 1, 2])))))))"

definition get_init_hidden :: "('a::zero) ReNetLayer \<Rightarrow> 'a tensor \<Rightarrow> nat \<Rightarrow> error + 'a hidden" where
  "get_init_hidden self x stack =
     (if rnn_type self = ''LSTM'' then
        ebind (size_t x 1) (\<lambda>n.
        ebind (size_t x 1) (\<lambda>n'.
        Inr (HiddenCell (zeros [2 * stack, n, hidden_dim self])
                        (zeros [2 * stack, n', hidden_dim self]))))
      else
        ebind (size_t x 1) (\<lambda>n. Inr (Hidden (zeros [2 * stack, n, hidden_dim self]))))"

definition apply_one_direction ::
  "('a::zero) ReNetLayer \<Rightarrow> 'a tensor \<Rightarrow> 'a rnn_module \<Rightarrow> nat \<Rightarrow> error + 'a tensor" where
  "apply_one_direction self x rnn stack =
     ebind (split x 1 0) (\<lambda>rows.
     ebind (cat rows 1) (\<lambda>inp.
     ebind (get_init_hidden self inp stack) (\<lambda>hn.
     ebind (select inp 0) (\<lambda>inp0.
     ebind (rnn_call rnn inp0 hn) (\<lambda>out.
     ebind (size_t out 0) (\<lambda>s0.
     ebind (size_t out 1) (\<lambda>s1.
     ebind (size_t out 2) (\<lambda>s2.
     ebind (view (contiguous out) [1, int s0, int s1, int s2]) (\<lambda>out4.
     ebind (size_t x 1) (\<lambda>b.
     ebind (split out4 b 1) (\<lambda>parts.
     cat parts 0)))))))))))"

definition forward :: "('a::zero) ReNetLayer \<Rightarrow> 'a tensor \<Rightarrow> error + 'a tensor" where
  "forward self x =
     ebind (get_valid_patches self x) (\<lambda>patches.
     ebind (permute patches [2, 0, 3, 1]) (\<lambda>input_array.
     ebind (apply_one_direction self input_array (firstVRNN self) (fst (stack_size self)))
       (\<lambda>vertical_results.
     ebind (permute vertical_results [2, 1, 0, 3]) (\<lambda>swapped.
     ebind (apply_one_direction self swapped (secondHRNN self) (snd (stack_size self)))
       (\<lambda>feature_map.
     permute feature_map [1, 3, 2, 0])))))"

text \<open>
  The sequence of feature vectors at position \<open>(s, b)\<close> of the first two dimensions of a
  4-D tensor, and what a recurrent network returns on a sequence from the all-zero initial
  state the layer gives it.
\<close>

definition row_of :: "'a tensor \<Rightarrow> nat \<Rightarrow> nat \<Rightarrow> 'a list list" where
  "row_of x s b =
     map (\<lambda>l. map (\<lambda>k. elem x [s, b, l, k]) [0..<shape x ! 3]) [0..<shape x ! 2]"

definition zero_state :: "nat \<Rightarrow> nat \<Rightarrow> ('a::zero) list list" where
  "zero_state n h = replicate n (replicate h 0)"

definition sweep_output ::
  "('a::zero) ReNetLayer \<Rightarrow> 'a rnn_module \<Rightarrow> nat \<Rightarrow> 'a list list \<Rightarrow> 'a list list" where
  "sweep_output self rnn stack xs =
     run rnn (params rnn) (zero_state (2 * stack) (hidden_dim self))
       (if rnn_type self = ''LSTM'' then Some (zero_state (2 * stack) (hidden_dim self))
        else None) xs"

text \<open>
  For the patches of an input: the sequence of patch feature vectors along patch row \<open>i\<close>
  of image \<open>b\<close>, what the first network returns on it, and the sequence that the outputs
  of the first network form along patch column \<open>j\<close>.
\<close>

definition patch_row :: "'a tensor \<Rightarrow> nat \<Rightarrow> nat \<Rightarrow> 'a list list" where
  "patch_row patches b i =
     map (\<lambda>j. map (\<lambda>f. elem patches [b, f, i, j]) [0..<shape patches ! 1])
       [0..<shape patches ! 3]"

definition first_sweep :: "('a::zero) ReNetLayer \<Rightarrow> 'a tensor \<Rightarrow> nat \<Rightarrow> nat \<Rightarrow> 'a list list" where
  "first_sweep self patches b i =
     sweep_output self (firstVRNN self) (fst (stack_size self)) (patch_row patches b i)"

definition patch_column :: "('a::zero) ReNetLayer \<Rightarrow> 'a tensor \<Rightarrow> nat \<Rightarrow> nat \<Rightarrow> 'a list list" where
  "patch_column self patches b j =
     map (\<lambda>i. map (\<lambda>k. first_sweep self patches b i ! j ! k) [0..<2 * hidden_dim self])
       [0..<shape patches ! 2]"

definition second_sweep :: "('a::zero) ReNetLayer \<Rightarrow> 'a tensor \<Rightarrow> nat \<Rightarrow> nat \<Rightarrow> 'a list list" where
  "second_sweep self patches b j =
     sweep_output self (secondHRNN self) (snd (stack_size self)) (patch_column self patches b j)"

section \<open>A concrete layer\<close>

text \<open>
  The layer that \<^verbatim>\<open>ReNetLayer(w, 1, "RNN", channel_size=1)\<close> builds when the weight
  initialiser sets every entry to one and the library starts every parameter at zero: one
  hidden unit, one stacked layer per sweep, all weights one and all biases zero.
\<close>

definition example_rnn :: "nat \<Rightarrow> real rnn_module" where
  "example_rnn inp =
     \<lparr>mode = ''RNN'', input_size = inp, hidden_size = 1, num_layers = 1,
      all_weights =
        [[''weight_ih_l0'', ''weight_hh_l0'', ''bias_ih_l0'', ''bias_hh_l0''],
         [''weight_ih_l0_reverse'', ''weight_hh_l0_reverse'',
          ''bias_ih_l0_reverse'', ''bias_hh_l0_reverse'']],
      params =
        map_of
          [(''weight_ih_l0'', fill 1 (zeros [1, inp])),
           (''weight_hh_l0'', fill 1 (zeros [1, 1])),
           (''bias_ih_l0'', zeros [1]),
           (''bias_hh_l0'', zeros [1]),
           (''weight_ih_l0_reverse'', fill 1 (zeros [1, inp])),
           (''weight_hh_l0_reverse'', fill 1 (zeros [1, 1])),
           (''bias_ih_l0_reverse'', zeros [1]),
           (''bias_hh_l0_reverse'', zeros [1])],
      run = elman\<rparr>"

definition example_layer :: "int \<Rightarrow> real ReNetLayer" where
  "example_layer w =
     \<lparr>window_size = (w, w), rnn_type = ''RNN'', hidden_dim = 1,
      firstVRNN = example_rnn (nat (w * w)), secondHRNN = example_rnn 2,
      stack_size = (1, 1)\<rparr>"

section \<open>Storage\<close>

text \<open>
  The functions above compute on tensor values.  To say what a call does to the tensors
  that exist already, the same code is embedded once more over a store: a list of flat
  storages.  A tensor object is the index of its storage together with the way its value
  is read from the elements of that storage; a view shares the storage of its base and
  reads it anew at every access, so a write to the storage would show through every view
  of it.  The operations of the library are of two kinds: those that return a view
  (\<^verbatim>\<open>unfold\<close>, \<^verbatim>\<open>permute\<close>, \<^verbatim>\<open>view\<close>, \<^verbatim>\<open>split\<close>, indexing, and \<^verbatim>\<open>contiguous\<close> of
  a tensor that is contiguous already) and those that fill a new storage
  (\<^verbatim>\<open>cat\<close>, \<^verbatim>\<open>zeros\<close>, the call of a recurrent network, and \<^verbatim>\<open>contiguous\<close> otherwise).
  An operation takes the store and returns its result, or the error it raises, with the
  store it leaves.
\<close>

record 'a tref =
  storage :: nat
  reading :: "'a list \<Rightarrow> 'a tensor"

datatype 'a hidden_ref = HiddenRef "'a tref" | HiddenCellRef "'a tref" "'a tref"

definition value_of :: "'a list list \<Rightarrow> 'a tref \<Rightarrow> 'a tensor" where
  "value_of \<sigma> t = reading t (\<sigma> ! storage t)"

definition hidden_value :: "'a list list \<Rightarrow> 'a hidden_ref \<Rightarrow> 'a hidden" where
  "hidden_value \<sigma> hx =
     (case hx of
        HiddenRef h \<Rightarrow> Hidden (value_of \<sigma> h)
      | HiddenCellRef h c \<Rightarrow> HiddenCell (value_of \<sigma> h) (value_of \<sigma> c))"

definition sbind ::
  "('a list list \<Rightarrow> (error + 'r) \<times> 'a list list) \<Rightarrow>
   ('r \<Rightarrow> 'a list list \<Rightarrow> (error + 'q) \<times> 'a list list) \<Rightarrow>
   'a list list \<Rightarrow> (error + 'q) \<times> 'a list list" where
  "sbind m f \<sigma> =
     (case m \<sigma> of
        (Inl e, \<sigma>') \<Rightarrow> (Inl e, \<sigma>')
      | (Inr r, \<sigma>') \<Rightarrow> f r \<sigma>')"

definition sreturn :: "'r \<Rightarrow> 'a list list \<Rightarrow> (error + 'r) \<times> 'a list list" where
  "sreturn r \<sigma> = (Inr r, \<sigma>)"

definition allocate :: "'a tensor \<Rightarrow> 'a list list \<Rightarrow> (error + 'a tref) \<times> 'a list list" where
  "allocate v \<sigma> =
     (Inr \<lparr>storage = length \<sigma>, reading = (\<lambda>s. \<lparr>shape = shape v, data = s\<rparr>)\<rparr>, \<sigma> @ [data v])"

definition shared_view ::
  "('a tensor \<Rightarrow> error + 'a tensor) \<Rightarrow> 'a tref \<Rightarrow> 'a list list
     \<Rightarrow> (error + 'a tref) \<times> 'a list list" where
  "shared_view f t \<sigma> =
     (case f (value_of \<sigma> t) of
        Inl e \<Rightarrow> (Inl e, \<sigma>)
      | Inr v \<Rightarrow>
          (Inr (t\<lparr>reading := (\<lambda>s. case f (reading t s) of Inl e \<Rightarrow> reading t s | Inr w \<Rightarrow> w)\<rparr>),
           \<sigma>))"

definition size_st :: "'a tref \<Rightarrow> nat \<Rightarrow> 'a list list \<Rightarrow> (error + nat) \<times> 'a list list" where
  "size_st t i \<sigma> = (size_t (value_of \<sigma> t) i, \<sigma>)"

definition split_st ::
  "'a tref \<Rightarrow> nat \<Rightarrow> nat \<Rightarrow> 'a list list \<Rightarrow> (error + 'a tref list) \<times> 'a list list" where
  "split_st t n d \<sigma> =
     (case split (value_of \<sigma> t) n d of
        Inl e \<Rightarrow> (Inl e, \<sigma>)
      | Inr vs \<Rightarrow>
          (Inr (map (\<lambda>k. t\<lparr>reading :=
                     (\<lambda>s. case split (reading t s) n d of
                            Inl e \<Rightarrow> reading t s | Inr ws \<Rightarrow> ws ! k)\<rparr>)
                  [0..<length vs]), \<sigma>))"

definition cat_st ::
  "'a tref list \<Rightarrow> nat \<Rightarrow> 'a list list \<Rightarrow> (error + 'a tref) \<times> 'a list list" where
  "cat_st ts d \<sigma> =
     (case cat (map (value_of \<sigma>) ts) d of
        Inl e \<Rightarrow> (Inl e, \<sigma>)
      | Inr v \<Rightarrow> allocate v \<sigma>)"

text \<open>
  Whether a tensor is contiguous depends on its strides, which are not modelled: the
  library's answer is a parameter, and what is proved holds for every answer.
\<close>

definition contiguous_st ::
  "('a tref \<Rightarrow> bool) \<Rightarrow> 'a tref \<Rightarrow> 'a list list \<Rightarrow> (error + 'a tref) \<times> 'a list list" where
  "contiguous_st is_contiguous t \<sigma> =
     (if is_contiguous t then (Inr t, \<sigma>) else allocate (contiguous (value_of \<sigma> t)) \<sigma>)"

definition rnn_call_st ::
  "'a rnn_module \<Rightarrow> 'a tref \<Rightarrow> 'a hidden_ref \<Rightarrow> 'a list list
     \<Rightarrow> (error + 'a tref) \<times> 'a list list" where
  "rnn_call_st m inp hx \<sigma> =
     (case rnn_call m (value_of \<sigma> inp) (hidden_value \<sigma> hx) of
        Inl e \<Rightarrow> (Inl e, \<sigma>)
      | Inr v \<Rightarrow> allocate v \<sigma>)"

definition get_valid_patches_st ::
  "('a tref \<Rightarrow> bool) \<Rightarrow> 'a ReNetLayer \<Rightarrow> 'a tref \<Rightarrow> 'a list list
     \<Rightarrow> (error + 'a tref) \<times> 'a list list" where
  "get_valid_patches_st is_contiguous self x =
     sbind (shared_view (\<lambda>v. unfold v 2 (fst (window_size self)) (fst (window_size self))) x) (\<lambda>u.
     sbind (shared_view (\<lambda>v. unfold v 3 (snd (window_size self)) (snd (window_size self))) u) (\<lambda>v.
     sbind (shared_view (\<lambda>v. permute v [0, 2, 3, 1, 4, 5]) v) (\<lambda>patches.
     sbind (size_st patches 0) (\<lambda>s0.
     sbind (size_st patches 1) (\<lambda>s1.
     sbind (size_st patches 2) (\<lambda>s2.
     sbind (contiguous_st is_contiguous patches) (\<lambda>c.
     sbind (shared_view (\<lambda>v. view v [int s0, int s1, int s2, - 1]) c) (\<lambda>flat.
     shared_view (\<lambda>v. permute v [0, 3, 1, 2]) flat))))))))"

definition get_init_hidden_st ::
  "('a::zero) ReNetLayer \<Rightarrow> 'a tref \<Rightarrow> nat \<Rightarrow> 'a list list
     \<Rightarrow> (error + 'a hidden_ref) \<times> 'a list list" where
  "get_init_hidden_st self x stack =
     (if rnn_type self = ''LSTM'' then
        sbind (size_st x 1) (\<lambda>n.
        sbind (allocate (zeros [2 * stack, n, hidden_dim self])) (\<lambda>h0.
        sbind (size_st x 1) (\<lambda>n'.
        sbind (allocate (zeros [2 * stack, n', hidden_dim self])) (\<lambda>c0.
        sreturn (HiddenCellRef h0 c0)))))
      else
        sbind (size_st x 1) (\<lambda>n.
        sbind (allocate (zeros [2 * stack, n, hidden_dim self])) (\<lambda>h0.
        sreturn (HiddenRef h0))))"

definition apply_one_direction_st ::
  "('a tref \<Rightarrow> bool) \<Rightarrow> ('a::zero) ReNetLayer \<Rightarrow> 'a tref \<Rightarrow> 'a rnn_module \<Rightarrow> nat
     \<Rightarrow> 'a list list \<Rightarrow> (error + 'a tref) \<times> 'a list list" where
  "apply_one_direction_st is_contiguous self x rnn stack =
     sbind (split_st x 1 0) (\<lambda>rows.
     sbind (cat_st rows 1) (\<lambda>inp.
     sbind (get_init_hidden_st self inp stack) (\<lambda>hn.
     sbind (shared_view (\<lambda>v. select v 0) inp) (\<lambda>inp0.
     sbind (rnn_call_st rnn inp0 hn) (\<lambda>out.
     sbind (size_st out 0) (\<lambda>s0.
     sbind (size_st out 1) (\<lambda>s1.
     sbind (size_st out 2) (\<lambda>s2.
     sbind (contiguous_st is_contiguous out) (\<lambda>c.
     sbind (shared_view (\<lambda>v. view v [1, int s0, int s1, int s2]) c) (\<lambda>out4.
     sbind (size_st x 1) (\<lambda>b.
     sbind (split_st out4 b 1) (\<lambda>parts.
     cat_st parts 0))))))))))))"

definition forward_st ::
  "('a tref \<Rightarrow> bool) \<Rightarrow> ('a::zero) ReNetLayer \<Rightarrow> 'a tref \<Rightarrow> 'a list list
     \<Rightarrow> (error + 'a tref) \<times> 'a list list" where
  "forward_st is_contiguous self x =
     sbind (get_valid_patches_st is_contiguous self x) (\<lambda>patches.
     sbind (shared_view (\<lambda>v. permute v [2, 0, 3, 1]) patches) (\<lambda>input_array.
     sbind (apply_one_direction_st is_contiguous self input_array (firstVRNN self)
              (fst (stack_size self))) (\<lambda>vertical_results.
     sbind (shared_view (\<lambda>v. permute v [2, 1, 0, 3]) vertical_results) (\<lambda>swapped.
     sbind (apply_one_direction_st is_contiguous self swapped (secondHRNN self)
              (snd (stack_size self))) (\<lambda>feature_map.
     shared_view (\<lambda>v. permute v [1, 3, 2, 0]) feature_map)))))"

text \<open>
  An operation \<open>m\<close> run in store \<open>\<sigma>\<close> computes the value-level result \<open>val\<close>: it only adds
  storages to the store, it raises the error that \<open>val\<close> is, or it returns an object that
  lives in the new store and whose value there is the value that \<open>val\<close> is.
\<close>

definition computes ::
  "('a list list \<Rightarrow> (error + 'r) \<times> 'a list list) \<Rightarrow> 'a list list \<Rightarrow>
   ('a list list \<Rightarrow> 'r \<Rightarrow> bool) \<Rightarrow> ('a list list \<Rightarrow> 'r \<Rightarrow> 'v) \<Rightarrow> error + 'v \<Rightarrow> bool" where
  "computes m \<sigma> lives val_of val =
     (case m \<sigma> of
        (r, \<sigma>') \<Rightarrow>
          (\<exists>ext. \<sigma>' = \<sigma> @ ext)
          \<and> (case r of
                Inl e \<Rightarrow> val = Inl e
              | Inr t \<Rightarrow> lives \<sigma>' t \<and> val = Inr (val_of \<sigma>' t)))"

definition lives :: "'a list list \<Rightarrow> 'a tref \<Rightarrow> bool" where
  "lives \<sigma> t = (storage t < length \<sigma>)"

definition all_live :: "'a list list \<Rightarrow> 'a tref list \<Rightarrow> bool" where
  "all_live \<sigma> ts = list_all (lives \<sigma>) ts"

definition hidden_lives :: "'a list list \<Rightarrow> 'a hidden_ref \<Rightarrow> bool" where
  "hidden_lives \<sigma> hx =
     (case hx of
        HiddenRef h \<Rightarrow> lives \<sigma> h
      | HiddenCellRef h c \<Rightarrow> lives \<sigma> h \<and> lives \<sigma> c)"

section \<open>Indexing and the tensor operations\<close>

lemma valid_index_Nil [simp]: "valid_index [] idx = (idx = [])"
  by (simp add: valid_index_def)

lemma valid_index_Cons [simp]:
  "valid_index (n # ns) idx = (\<exists>i is. idx = i # is \<and> i < n \<and> valid_index ns is)"
  by (cases idx) (auto simp: valid_index_def)

lemma ravel_less: "valid_index sh idx \<Longrightarrow> ravel sh idx < prod_list sh"
proof (induction sh arbitrary: idx)
  case Nil
  then show ?case by simp
next
  case (Cons n ns)
  then obtain i "is" where idx: "idx = i # is" and i: "i < n" and v: "valid_index ns is"
    by auto
  have "ravel ns is < prod_list ns" using Cons.IH [OF v] .
  then have "i * prod_list ns + ravel ns is < (i + 1) * prod_list ns" by simp
  also have "\<dots> \<le> n * prod_list ns" using i by (intro mult_le_mono1) simp
  finally show ?case by (simp add: idx)
qed

lemma unravel_ravel: "valid_index sh idx \<Longrightarrow> unravel sh (ravel sh idx) = idx"
proof (induction sh arbitrary: idx)
  case Nil
  then show ?case by simp
next
  case (Cons n ns)
  then obtain i "is" where idx: "idx = i # is" and i: "i < n" and v: "valid_index ns is"
    by auto
  have r: "ravel ns is < prod_list ns" using ravel_less [OF v] .
  show ?case using Cons.IH [OF v] r by (simp add: idx)
qed

lemma shape_tabulate [simp]: "shape (tabulate sh f) = sh"
  by (simp add: tabulate_def)

lemma well_formed_tabulate [simp]: "well_formed (tabulate sh f)"
  by (simp add: tabulate_def well_formed_def)

lemma elem_tabulate: "valid_index sh idx \<Longrightarrow> elem (tabulate sh f) idx = f idx"
  by (simp add: elem_def tabulate_def ravel_less unravel_ravel)

lemma elem_reshape_tabulate:
  "valid_index sh idx \<Longrightarrow> ravel sh' idx' = ravel sh idx \<Longrightarrow>
   elem ((tabulate sh f)\<lparr>shape := sh'\<rparr>) idx' = f idx"
  by (simp add: elem_def tabulate_def ravel_less unravel_ravel)

lemma window_count: "0 < w \<Longrightarrow> w \<le> n \<Longrightarrow> nat ((int n - int w) div int w + 1) = n div w"
proof -
  assume w: "0 < w" and le: "w \<le> n"
  have "(int n - int w) div int w = int ((n - w) div w)"
    using le by (simp add: of_nat_diff zdiv_int)
  moreover have "(n - w) div w + 1 = n div w"
    using w le by (simp add: le_div_geq)
  ultimately show ?thesis by (simp add: nat_add_distrib)
qed

lemma upt6: "[0..<6] = [0,1,2,3,4,5]" by (simp add: upt_rec)
lemma upt4: "[0..<4] = [0,1,2,3]" by (simp add: upt_rec)


lemma block_index_less: "i < n div w \<Longrightarrow> r < w \<Longrightarrow> i * w + r < (n::nat)"
proof -
  assume i: "i < n div w" and r: "r < w"
  have "i * w + r < (i + 1) * w" using r by simp
  also have "\<dots> \<le> (n div w) * w" using i by (intro mult_le_mono1) simp
  also have "\<dots> \<le> n" by simp
  finally show ?thesis .
qed

lemma feature_index_less: "c < C \<Longrightarrow> r < w \<Longrightarrow> s < w \<Longrightarrow> (c * w + r) * w + s < w * w * (C::nat)"
proof -
  assume c: "c < C" and r: "r < w" and s: "s < w"
  have "c * w + r < (c + 1) * w" using r by simp
  also have "\<dots> \<le> C * w" using c by (intro mult_le_mono1) simp
  finally have "c * w + r < C * w" .
  then have "(c * w + r) * w + s < (c * w + r + 1) * w" using s by simp
  also have "\<dots> \<le> (C * w) * w" using \<open>c * w + r < C * w\<close> by (intro mult_le_mono1) simp
  finally show ?thesis by (simp add: mult_ac)
qed

lemma infer_last:
  "0 < a * b * c \<Longrightarrow> infer_size [int a, int b, int c, - 1] (a * b * c * m) = Inr [a, b, c, m]"
  by (simp add: infer_size_def Let_def nat_mult_distrib flip: of_nat_mult)

lemma get_valid_patches_elements:
  assumes ws: "window_size self = (int w, int w)" and w: "0 < w"
    and sh: "shape x = [B, C, H, W]" and B: "0 < B" and H: "w \<le> H" and W: "w \<le> W"
  shows "\<exists>y. get_valid_patches self x = Inr y \<and> shape y = [B, w * w * C, H div w, W div w] \<and> well_formed y
     \<and> (\<forall>b c r s i j. b < B \<and> c < C \<and> r < w \<and> s < w \<and> i < H div w \<and> j < W div w \<longrightarrow>
          elem y [b, (c * w + r) * w + s, i, j] = elem x [b, c, i * w + r, j * w + s])"
proof -
  define H' where "H' = H div w"
  define W' where "W' = W div w"
  have H': "0 < H'" and W': "0 < W'"
    using w H W by (simp_all add: H'_def W'_def div_greater_zero_iff)
  define fu where "fu = (\<lambda>idx. elem x (window_index 2 w idx))"
  define u where "u = tabulate [B, C, H', W, w] fu"
  have u: "unfold x 2 (int w) (int w) = Inr u"
    using w H by (simp add: unfold_def sh u_def fu_def H'_def window_count)
  define fv where "fv = (\<lambda>idx. elem u (window_index 3 w idx))"
  define v where "v = tabulate [B, C, H', W', w, w] fv"
  have v: "unfold u 3 (int w) (int w) = Inr v"
    using w W by (simp add: unfold_def u_def v_def fv_def W'_def window_count)
  define fp where "fp = (\<lambda>idx. elem v (source_index [0, 2, 3, 1, 4, 5] idx))"
  define p where "p = tabulate [B, H', W', C, w, w] fp"
  have p: "permute v [0, 2, 3, 1, 4, 5] = Inr p"
    by (simp add: permute_def v_def p_def fp_def)
  define flat where "flat = p\<lparr>shape := [B, H', W', C * w * w]\<rparr>"
  have "numel p = B * H' * W' * (C * w * w)"
    by (simp add: numel_def p_def)
  moreover have "0 < B * H' * W'" using B H' W' by simp
  ultimately have flat: "view (contiguous p) [int B, int H', int W', - 1] = Inr flat"
    using infer_last [of B H' W' "C * w * w"]
    by (simp add: view_def contiguous_def flat_def)
  define fy where "fy = (\<lambda>idx. elem flat (source_index [0, 3, 1, 2] idx))"
  define y where "y = tabulate [B, C * w * w, H', W'] fy"
  have y: "permute flat [0, 3, 1, 2] = Inr y"
    by (simp add: permute_def flat_def y_def fy_def)
  have sz: "size_t p 0 = Inr B" "size_t p 1 = Inr H'" "size_t p 2 = Inr W'"
    by (simp_all add: size_t_def p_def)
  have res: "get_valid_patches self x = Inr y"
    by (simp only: get_valid_patches_def ws fst_conv snd_conv ebind_def u v p sz flat y sum.case)
  have el: "elem y [b, (c * w + r) * w + s, i, j] = elem x [b, c, i * w + r, j * w + s]"
    if "b < B" "c < C" "r < w" "s < w" "i < H'" "j < W'" for b c r s i j
  proof -
    have f: "(c * w + r) * w + s < C * w * w"
      using feature_index_less [OF that(2,3,4)] by (simp add: mult_ac)
    have iw: "i * w + r < H" using block_index_less that by (simp add: H'_def)
    have jw: "j * w + s < W" using block_index_less that by (simp add: W'_def)
    have "elem y [b, (c * w + r) * w + s, i, j] = fy [b, (c * w + r) * w + s, i, j]"
      unfolding y_def using that f by (intro elem_tabulate) simp
    also have "\<dots> = elem flat [b, i, j, (c * w + r) * w + s]"
      by (simp add: fy_def source_index_def upt4 index_of_def)
    also have "\<dots> = fp [b, i, j, c, r, s]"
      unfolding flat_def p_def using that
      by (intro elem_reshape_tabulate) (simp_all add: algebra_simps)
    also have "\<dots> = elem v [b, c, i, j, r, s]"
      by (simp add: fp_def source_index_def upt6 index_of_def)
    also have "\<dots> = fv [b, c, i, j, r, s]"
      unfolding v_def using that by (intro elem_tabulate) simp
    also have "\<dots> = elem u [b, c, i, j * w + s, r]"
      by (simp add: fv_def window_index_def)
    also have "\<dots> = fu [b, c, i, j * w + s, r]"
      unfolding u_def using that jw by (intro elem_tabulate) simp
    also have "\<dots> = elem x [b, c, i * w + r, j * w + s]"
      by (simp add: fu_def window_index_def)
    finally show ?thesis .
  qed
  show ?thesis
    using res el by (auto simp: y_def H'_def W'_def mult_ac)
qed

lemma valid_index_length: "valid_index sh idx \<Longrightarrow> length idx = length sh"
  by (simp add: valid_index_def list_all2_lengthD)

lemma valid_index_nth: "valid_index sh idx \<Longrightarrow> k < length sh \<Longrightarrow> idx ! k < sh ! k"
  by (simp add: valid_index_def list_all2_nthD2)

lemma valid_index_update:
  "valid_index sh idx \<Longrightarrow> i < n \<Longrightarrow> valid_index (sh[d := n]) (idx[d := i])"
  unfolding valid_index_def list_all2_conv_all_nth
  by (cases "d < length sh") (auto simp: nth_list_update)

lemma split_even:
  assumes d: "d < length (shape t)" and n: "0 < n" and m: "0 < m" and sz: "shape t ! d = m * n"
  shows "split t n d =
     Inr (map (\<lambda>k. tabulate ((shape t)[d := n]) (\<lambda>idx. elem t (idx[d := k * n + idx ! d])))
            [0..<m])"
proof -
  have cnt: "max 1 ((shape t ! d + n - 1) div n) = m"
  proof -
    obtain n' where n': "n = Suc n'" using n by (cases n) auto
    have "m * n + n - 1 = n' + m * n" by (simp add: n')
    then have "(m * n + n - 1) div n = (n' + m * n) div n" by simp
    also have "\<dots> = m + n' div n" using n by (simp only: div_mult_self1) 
    also have "\<dots> = m" by (simp add: n')
    finally show ?thesis using m by (simp add: sz)
  qed
  have len: "min n (shape t ! d - k * n) = n" if "k < m" for k
  proof -
    have "(k + 1) * n \<le> m * n" using that by (intro mult_le_mono1) simp
    then show ?thesis by (simp add: sz)
  qed
  have "split t n d =
      Inr (map (\<lambda>k. tabulate ((shape t)[d := min n (shape t ! d - k * n)])
                       (\<lambda>idx. elem t (idx[d := k * n + idx ! d]))) [0..<m])"
    using d n by (simp only: split_def cnt) simp
  also have "map (\<lambda>k. tabulate ((shape t)[d := min n (shape t ! d - k * n)])
                       (\<lambda>idx. elem t (idx[d := k * n + idx ! d]))) [0..<m]
     = map (\<lambda>k. tabulate ((shape t)[d := n]) (\<lambda>idx. elem t (idx[d := k * n + idx ! d])))
            [0..<m]"
    by (rule map_cong) (simp_all add: len)
  finally show ?thesis .
qed

lemma cat_elem_uniform:
  assumes "\<forall>u \<in> set (t # us). shape u ! d = c" and "b < c" and "j < length (t # us)"
    and "d < length idx"
  shows "cat_elem t us d (idx[d := j * c + b]) = elem ((t # us) ! j) (idx[d := b])"
  using assms
proof (induction us arbitrary: t j)
  case Nil
  then show ?case by simp
next
  case (Cons u us)
  show ?case
  proof (cases j)
    case 0
    then show ?thesis using Cons.prems by simp
  next
    case (Suc j')
    have "cat_elem u us d (idx[d := j' * c + b]) = elem ((u # us) ! j') (idx[d := b])"
      using Cons.prems Suc by (intro Cons.IH) auto
    then show ?thesis using Cons.prems Suc by simp
  qed
qed

lemma sum_list_const: "\<forall>x \<in> set xs. f x = (c::nat) \<Longrightarrow> sum_list (map f xs) = length xs * c"
  by (induction xs) auto

lemma cat_uniform:
  assumes ne: "ts \<noteq> []" and sh: "\<forall>u \<in> set ts. shape u = sh" and d: "d < length sh"
  shows "\<exists>y. cat ts d = Inr y \<and> shape y = sh[d := length ts * sh ! d] \<and> well_formed y \<and>
     (\<forall>idx j b. valid_index sh (idx[d := b]) \<and> j < length ts \<longrightarrow>
         elem y (idx[d := j * (sh ! d) + b]) = elem (ts ! j) (idx[d := b]))"
proof -
  obtain t us where ts: "ts = t # us" using ne by (cases ts) auto
  define y where "y = tabulate (sh[d := length ts * sh ! d]) (cat_elem t us d)"
  have t: "shape t = sh" and us: "\<forall>u \<in> set us. shape u = sh" using sh ts by auto
  have noex: "\<not> list_ex (\<lambda>u. (shape u)[d := 0] \<noteq> (shape t)[d := 0]) us"
    using us t by (simp add: list_ex_iff)
  have sum: "sum_list (map (\<lambda>u. shape u ! d) ts) = length ts * sh ! d"
    using sh by (intro sum_list_const) simp
  have c: "cat ts d = Inr y"
    unfolding cat_def ts list.case using d noex sum t by (simp add: y_def ts)
  have el: "elem y (idx[d := j * (sh ! d) + b]) = elem (ts ! j) (idx[d := b])"
    if v: "valid_index sh (idx[d := b])" and j: "j < length ts" for idx j b
  proof -
    have len: "length idx = length sh" using valid_index_length [OF v] by simp
    have b: "b < sh ! d" using valid_index_nth [OF v d] d len by simp
    have "j * (sh ! d) + b < (j + 1) * (sh ! d)" using b by simp
    also have "\<dots> \<le> length ts * sh ! d" using j by (intro mult_le_mono1) simp
    finally have lt: "j * (sh ! d) + b < length ts * sh ! d" .
    have "valid_index (sh[d := length ts * sh ! d]) ((idx[d := b])[d := j * (sh ! d) + b])"
      using v lt by (rule valid_index_update)
    then have "elem y (idx[d := j * (sh ! d) + b]) = cat_elem t us d (idx[d := j * (sh ! d) + b])"
      unfolding y_def by (intro elem_tabulate) simp
    also have "\<dots> = elem ((t # us) ! j) (idx[d := b])"
      using sh b j d len by (intro cat_elem_uniform) (auto simp: ts)
    finally show ?thesis by (simp add: ts)
  qed
  show ?thesis using c el by (auto simp: y_def)
qed

lemma shape_zeros: "shape (zeros sh) = sh"
  by (simp add: zeros_def)

lemma elem_zeros: "valid_index sh idx \<Longrightarrow> elem (zeros sh) idx = 0"
  by (simp add: elem_def zeros_def ravel_less)

lemma map_const_upt: "map (\<lambda>_. c) [0..<n] = replicate n c"
  by (induction n) (simp_all add: replicate_append_same)

lemma state_of_zeros: "n < N \<Longrightarrow> state_of (zeros [a, N, h]) n = zero_state a h"
proof -
  assume n: "n < N"
  have "state_of (zeros [a, N, h]) n = map (\<lambda>_. map (\<lambda>_. 0) [0..<h]) [0..<a]"
    unfolding state_of_def using n by (simp add: shape_zeros elem_zeros cong: map_cong)
  then show ?thesis by (simp add: zero_state_def map_const_upt)
qed

lemma pair_index_less: "s < S \<Longrightarrow> b < B \<Longrightarrow> s * B + b < S * (B::nat)"
proof -
  assume s: "s < S" and b: "b < B"
  have "s * B + b < (s + 1) * B" using b by simp
  also have "\<dots> \<le> S * B" using s by (intro mult_le_mono1) simp
  finally show ?thesis .
qed

lemma prod_list_int: "prod_list (map int sh) = int (prod_list sh)"
  by (induction sh) simp_all

lemma infer_size_explicit:
  "infer_size (map int sh) n = (if n = prod_list sh then Inr sh else Inl RuntimeError)"
proof -
  have 1: "\<not> list_ex (\<lambda>d. d < - 1) (map int sh)" by (simp add: list_ex_iff)
  have 2: "filter (\<lambda>d. d = - 1) (map int sh) = []" by (auto simp: filter_empty_conv)
  have 3: "\<not> list_ex (\<lambda>d. d = - 1) (map int sh)" by (auto simp: list_ex_iff)
  have 4: "filter (\<lambda>d. d \<noteq> - 1) (map int sh) = map int sh" by (auto simp: filter_id_conv)
  have 5: "map nat (map int sh) = sh" by (simp add: map_idI)
  show ?thesis
    unfolding infer_size_def by (simp only: 1 2 3 4 5 prod_list_int Let_def) simp
qed

lemma view_explicit:
  "numel t = prod_list sh \<Longrightarrow> view (contiguous t) (map int sh) = Inr (t\<lparr>shape := sh\<rparr>)"
  by (simp add: view_def contiguous_def infer_size_explicit)

lemma apply_one_direction_elements:
  fixes x :: "('a::zero) tensor"
  assumes sh: "shape x = [S, B, L, F]" and S: "0 < S" and B: "0 < B"
    and F: "F = input_size rnn" and hid: "hidden_size rnn = hidden_dim self"
    and nl: "num_layers rnn = stack"
    and md: "(mode rnn = ''LSTM'') = (rnn_type self = ''LSTM'')"
  shows "\<exists>y. apply_one_direction self x rnn stack = Inr y
     \<and> shape y = [S, B, L, 2 * hidden_dim self] \<and> well_formed y
     \<and> (\<forall>s b l k. s < S \<and> b < B \<and> l < L \<and> k < 2 * hidden_dim self \<longrightarrow>
          elem y [s, b, l, k] = sweep_output self rnn stack (row_of x s b) ! l ! k)"
proof -
  define h where "h = hidden_dim self"
  define g where "g = (\<lambda>k. tabulate [1, B, L, F] (\<lambda>idx. elem x (idx[0 := k * 1 + idx ! 0])))"
  define rows where "rows = map g [0..<S]"
  have rows: "split x 1 0 = Inr rows"
    using split_even [of 0 x 1 S] S by (simp add: sh rows_def g_def)
  have "\<exists>y. cat rows 1 = Inr y \<and> shape y = [1, B, L, F][1 := length rows * [1, B, L, F] ! 1]
      \<and> well_formed y
      \<and> (\<forall>idx j b. valid_index [1, B, L, F] (idx[1 := b]) \<and> j < length rows \<longrightarrow>
           elem y (idx[1 := j * ([1, B, L, F] ! 1) + b]) = elem (rows ! j) (idx[1 := b]))"
    using S by (intro cat_uniform) (auto simp: rows_def g_def)
  then obtain inp where inp: "cat rows 1 = Inr inp" and inp_sh: "shape inp = [1, S * B, L, F]"
    and inp_el: "\<And>idx j b. valid_index [1, B, L, F] (idx[1 := b]) \<Longrightarrow> j < S \<Longrightarrow>
           elem inp (idx[1 := j * B + b]) = elem (rows ! j) (idx[1 := b])"
    by (auto simp: rows_def)
  define hn :: "'a hidden" where "hn = (if rnn_type self = ''LSTM''
      then HiddenCell (zeros [2 * stack, S * B, h]) (zeros [2 * stack, S * B, h])
      else Hidden (zeros [2 * stack, S * B, h]))"
  have hn: "get_init_hidden self inp stack = Inr hn"
    by (simp add: get_init_hidden_def size_t_def inp_sh ebind_def hn_def h_def)
  define inp0 where "inp0 = tabulate [S * B, L, F] (\<lambda>idx. elem inp (0 # idx))"
  have inp0: "select inp 0 = Inr inp0"
    by (simp add: select_def inp_sh inp0_def)
  define out where "out = tabulate [S * B, L, 2 * h]
      (\<lambda>idx. run_on rnn inp0 hn (idx ! 0) ! (idx ! 1) ! (idx ! 2))"
  have hok: "hidden_ok rnn (S * B) hn"
    using md by (simp add: hidden_ok_def hn_def nl hid h_def zeros_def)
  have out: "rnn_call rnn inp0 hn = Inr out"
    using hok by (simp add: rnn_call_def inp0_def F out_def hid h_def)
  have osz: "size_t out 0 = Inr (S * B)" "size_t out 1 = Inr L" "size_t out 2 = Inr (2 * h)"
    by (simp_all add: size_t_def out_def)
  define out4 where "out4 = out\<lparr>shape := [1, S * B, L, 2 * h]\<rparr>"
  have out4: "view (contiguous out) [1, int (S * B), int L, int (2 * h)] = Inr out4"
    using view_explicit [of out "[1, S * B, L, 2 * h]"]
    by (simp add: numel_def out_def out4_def)
  have xb: "size_t x 1 = Inr B" by (simp add: size_t_def sh)
  define q where "q = (\<lambda>k. tabulate [1, B, L, 2 * h] (\<lambda>idx. elem out4 (idx[1 := k * B + idx ! 1])))"
  define parts where "parts = map q [0..<S]"
  have parts: "split out4 B 1 = Inr parts"
    using split_even [of 1 out4 B S] S B by (simp add: out4_def parts_def q_def mult.commute)
  have "\<exists>y. cat parts 0 = Inr y
      \<and> shape y = [1, B, L, 2 * h][0 := length parts * [1, B, L, 2 * h] ! 0]
      \<and> well_formed y
      \<and> (\<forall>idx j b. valid_index [1, B, L, 2 * h] (idx[0 := b]) \<and> j < length parts \<longrightarrow>
           elem y (idx[0 := j * ([1, B, L, 2 * h] ! 0) + b]) = elem (parts ! j) (idx[0 := b]))"
    using S by (intro cat_uniform) (auto simp: parts_def q_def)
  then obtain y where y: "cat parts 0 = Inr y" and y_sh: "shape y = [S, B, L, 2 * h]"
    and y_wf: "well_formed y"
    and y_el: "\<And>idx j b. valid_index [1, B, L, 2 * h] (idx[0 := b]) \<Longrightarrow> j < S \<Longrightarrow>
           elem y (idx[0 := j + b]) = elem (parts ! j) (idx[0 := b])"
    by (auto simp: parts_def)
  have res: "apply_one_direction self x rnn stack = Inr y"
    by (simp only: apply_one_direction_def ebind_def rows inp hn inp0 out osz out4 xb parts y
        sum.case)
  have el: "elem y [s, b, l, k] = sweep_output self rnn stack (row_of x s b) ! l ! k"
    if s: "s < S" and b: "b < B" and l: "l < L" and k: "k < 2 * h" for s b l k
  proof -
    have n: "s * B + b < S * B" using pair_index_less [OF s b] .
    have "elem y ([0, b, l, k][0 := s + 0]) = elem (parts ! s) ([0, b, l, k][0 := 0])"
      using s b l k by (intro y_el) simp_all
    then have "elem y [s, b, l, k] = elem (q s) [0, b, l, k]"
      using s by (simp add: parts_def)
    also have "\<dots> = elem out4 [0, s * B + b, l, k]"
      unfolding q_def using b l k by (subst elem_tabulate) simp_all
    also have "\<dots> = run_on rnn inp0 hn (s * B + b) ! l ! k"
      unfolding out4_def out_def
      using n l k by (subst elem_reshape_tabulate [where idx = "[s * B + b, l, k]"]) simp_all
    finally have 1: "elem y [s, b, l, k] = run_on rnn inp0 hn (s * B + b) ! l ! k" .
    have e0: "elem inp0 [s * B + b, l', f] = elem x [s, b, l', f]" if "l' < L" "f < F" for l' f
    proof -
      have "elem inp0 [s * B + b, l', f] = elem inp [0, s * B + b, l', f]"
        unfolding inp0_def using n that by (subst elem_tabulate) simp_all
      also have "\<dots> = elem inp ([0, 0, l', f][1 := s * B + b])" by simp
      also have "\<dots> = elem (rows ! s) ([0, 0, l', f][1 := b])"
        using s b that by (intro inp_el) simp_all
      also have "\<dots> = elem (g s) [0, b, l', f]" using s by (simp add: rows_def)
      also have "\<dots> = elem x [s, b, l', f]"
        unfolding g_def using b that by (subst elem_tabulate) simp_all
      finally show ?thesis .
    qed
    have shp: "shape inp0 = [S * B, L, F]" by (simp add: inp0_def)
    have seq: "sequence_of inp0 (s * B + b) = row_of x s b"
      unfolding sequence_of_def row_of_def shp sh
      by (simp add: e0 cong: map_cong)
    have 2: "run_on rnn inp0 hn (s * B + b) = sweep_output self rnn stack (row_of x s b)"
      using n by (simp add: run_on_def hn_def sweep_output_def seq state_of_zeros h_def)
    show ?thesis using 1 2 by simp
  qed
  show ?thesis using res y_sh y_wf el by (auto simp: h_def)
qed

lemma permute_explicit:
  "length perm = length (shape t) \<Longrightarrow> distinct perm \<Longrightarrow> list_all (\<lambda>p. p < length perm) perm \<Longrightarrow>
   permute t perm = Inr (tabulate (map (\<lambda>p. shape t ! p) perm) (\<lambda>idx. elem t (source_index perm idx)))"
  by (simp add: permute_def)

lemma forward_elements:
  fixes x :: "('a::zero) tensor"
  assumes ws: "window_size self = (int w, int w)" and w: "0 < w"
    and sh: "shape x = [B, C, H, W]" and B: "0 < B" and H: "w \<le> H" and W: "w \<le> W"
    and f1: "input_size (firstVRNN self) = w * w * C"
            "hidden_size (firstVRNN self) = hidden_dim self"
            "num_layers (firstVRNN self) = fst (stack_size self)"
            "(mode (firstVRNN self) = ''LSTM'') = (rnn_type self = ''LSTM'')"
    and f2: "input_size (secondHRNN self) = 2 * hidden_dim self"
            "hidden_size (secondHRNN self) = hidden_dim self"
            "num_layers (secondHRNN self) = snd (stack_size self)"
            "(mode (secondHRNN self) = ''LSTM'') = (rnn_type self = ''LSTM'')"
  shows "\<exists>patches y. get_valid_patches self x = Inr patches \<and> forward self x = Inr y
     \<and> shape y = [B, 2 * hidden_dim self, H div w, W div w] \<and> well_formed y
     \<and> (\<forall>b k i j. b < B \<and> k < 2 * hidden_dim self \<and> i < H div w \<and> j < W div w \<longrightarrow>
           elem y [b, k, i, j] = second_sweep self patches b j ! i ! k)"
proof -
  define h where "h = hidden_dim self"
  define H' where "H' = H div w"
  define W' where "W' = W div w"
  define F where "F = w * w * C"
  have H': "0 < H'" and W': "0 < W'"
    using w H W by (simp_all add: H'_def W'_def div_greater_zero_iff)
  obtain P where P: "get_valid_patches self x = Inr P" and P_sh: "shape P = [B, F, H', W']"
    using get_valid_patches_elements [OF ws w sh B H W] by (auto simp: F_def H'_def W'_def)
  define A where "A = tabulate [H', B, W', F] (\<lambda>idx. elem P (source_index [2, 0, 3, 1] idx))"
  have A: "permute P [2, 0, 3, 1] = Inr A"
    using permute_explicit [of "[2, 0, 3, 1]" P] by (simp add: P_sh A_def)
  have "\<exists>y. apply_one_direction self A (firstVRNN self) (fst (stack_size self)) = Inr y
     \<and> shape y = [H', B, W', 2 * hidden_dim self] \<and> well_formed y
     \<and> (\<forall>s b l k. s < H' \<and> b < B \<and> l < W' \<and> k < 2 * hidden_dim self \<longrightarrow>
          elem y [s, b, l, k]
          = sweep_output self (firstVRNN self) (fst (stack_size self)) (row_of A s b) ! l ! k)"
    using H' B f1 by (intro apply_one_direction_elements) (simp_all add: A_def F_def)
  then obtain V where V: "apply_one_direction self A (firstVRNN self) (fst (stack_size self)) = Inr V"
    and V_sh: "shape V = [H', B, W', 2 * h]"
    and V_el: "\<And>s b l k. s < H' \<Longrightarrow> b < B \<Longrightarrow> l < W' \<Longrightarrow> k < 2 * h \<Longrightarrow>
          elem V [s, b, l, k]
          = sweep_output self (firstVRNN self) (fst (stack_size self)) (row_of A s b) ! l ! k"
    by (auto simp: h_def)
  define Sw where "Sw = tabulate [W', B, H', 2 * h] (\<lambda>idx. elem V (source_index [2, 1, 0, 3] idx))"
  have Sw: "permute V [2, 1, 0, 3] = Inr Sw"
    using permute_explicit [of "[2, 1, 0, 3]" V] by (simp add: V_sh Sw_def)
  have "\<exists>y. apply_one_direction self Sw (secondHRNN self) (snd (stack_size self)) = Inr y
     \<and> shape y = [W', B, H', 2 * hidden_dim self] \<and> well_formed y
     \<and> (\<forall>s b l k. s < W' \<and> b < B \<and> l < H' \<and> k < 2 * hidden_dim self \<longrightarrow>
          elem y [s, b, l, k]
          = sweep_output self (secondHRNN self) (snd (stack_size self)) (row_of Sw s b) ! l ! k)"
    using W' B f2 by (intro apply_one_direction_elements) (simp_all add: Sw_def h_def)
  then obtain Fm where Fm: "apply_one_direction self Sw (secondHRNN self) (snd (stack_size self)) = Inr Fm"
    and Fm_sh: "shape Fm = [W', B, H', 2 * h]"
    and Fm_el: "\<And>s b l k. s < W' \<Longrightarrow> b < B \<Longrightarrow> l < H' \<Longrightarrow> k < 2 * h \<Longrightarrow>
          elem Fm [s, b, l, k]
          = sweep_output self (secondHRNN self) (snd (stack_size self)) (row_of Sw s b) ! l ! k"
    by (auto simp: h_def)
  define y where "y = tabulate [B, 2 * h, H', W'] (\<lambda>idx. elem Fm (source_index [1, 3, 2, 0] idx))"
  have y: "permute Fm [1, 3, 2, 0] = Inr y"
    using permute_explicit [of "[1, 3, 2, 0]" Fm] by (simp add: Fm_sh y_def)
  have res: "forward self x = Inr y"
    by (simp only: forward_def ebind_def P A V Sw Fm y sum.case)
  have rowA: "row_of A i b = patch_row P b i" if "i < H'" "b < B" for i b
  proof -
    have "elem A [i, b, j, f] = elem P [b, f, i, j]" if "j < W'" "f < F" for j f
      unfolding A_def using that \<open>i < H'\<close> \<open>b < B\<close>
      by (subst elem_tabulate) (simp_all add: source_index_def upt4 index_of_def)
    then show ?thesis
      unfolding row_of_def patch_row_def by (simp add: A_def P_sh cong: map_cong)
  qed
  have rowSw: "row_of Sw j b = patch_column self P b j" if "j < W'" "b < B" for j b
  proof -
    have "elem Sw [j, b, i, k] = first_sweep self P b i ! j ! k" if "i < H'" "k < 2 * h" for i k
    proof -
      have "elem Sw [j, b, i, k] = elem V [i, b, j, k]"
        unfolding Sw_def using that \<open>j < W'\<close> \<open>b < B\<close>
        by (subst elem_tabulate) (simp_all add: source_index_def upt4 index_of_def)
      also have "\<dots> = first_sweep self P b i ! j ! k"
        using that \<open>j < W'\<close> \<open>b < B\<close> by (simp add: V_el rowA first_sweep_def)
      finally show ?thesis .
    qed
    then show ?thesis
      unfolding row_of_def patch_column_def by (simp add: Sw_def P_sh h_def cong: map_cong)
  qed
  have el: "elem y [b, k, i, j] = second_sweep self P b j ! i ! k"
    if "b < B" "k < 2 * h" "i < H'" "j < W'" for b k i j
  proof -
    have "elem y [b, k, i, j] = elem Fm [j, b, i, k]"
      unfolding y_def using that
      by (subst elem_tabulate) (simp_all add: source_index_def upt4 index_of_def)
    also have "\<dots> = second_sweep self P b j ! i ! k"
      using that by (simp add: Fm_el rowSw second_sweep_def)
    finally show ?thesis .
  qed
  show ?thesis
    using P res el by (auto simp: y_def h_def H'_def W'_def)
qed

section \<open>Construction\<close>

lemma apply_names_fields:
  "apply_names fn m ps = Inr m' \<Longrightarrow>
   mode m' = mode m \<and> input_size m' = input_size m \<and> hidden_size m' = hidden_size m
   \<and> num_layers m' = num_layers m \<and> all_weights m' = all_weights m \<and> run m' = run m"
proof (induction ps arbitrary: m)
  case Nil
  then show ?case by simp
next
  case (Cons p ps)
  show ?case
  proof (cases "contains ''weight'' p")
    case True
    then obtain t where t: "params m p = Some t"
      and rest: "apply_names fn (m\<lparr>params := (params m)(p \<mapsto> fn t)\<rparr>) ps = Inr m'"
      using Cons.prems by (auto split: option.splits)
    show ?thesis using Cons.IH [OF rest] by simp
  next
    case False
    then show ?thesis using Cons.prems Cons.IH by simp
  qed
qed

lemma apply_layers_fields:
  "apply_layers fn m ls = Inr m' \<Longrightarrow>
   mode m' = mode m \<and> input_size m' = input_size m \<and> hidden_size m' = hidden_size m
   \<and> num_layers m' = num_layers m \<and> all_weights m' = all_weights m \<and> run m' = run m"
proof (induction ls arbitrary: m)
  case Nil
  then show ?case by simp
next
  case (Cons l ls)
  then obtain m1 where 1: "apply_names fn m l = Inr m1" and 2: "apply_layers fn m1 ls = Inr m'"
    by (auto simp: ebind_def split: sum.splits)
  show ?case using apply_names_fields [OF 1] Cons.IH [OF 2] by simp
qed

lemma constructed_fields:
  assumes nn: "nn rnn = Some (RNNBase rnn recurrence fresh)"
    and init: "ReNetLayer_init nn fn w d rnn stack ch bias dropout = Inr self"
  shows "window_size self = (w, w)" and "rnn_type self = rnn" and "hidden_dim self = d"
    and "stack_size self = stack"
    and "input_size (firstVRNN self) = nat (w * w * int ch)"
    and "hidden_size (firstVRNN self) = d" and "num_layers (firstVRNN self) = fst stack"
    and "mode (firstVRNN self) = rnn"
    and "input_size (secondHRNN self) = 2 * d"
    and "hidden_size (secondHRNN self) = d" and "num_layers (secondHRNN self) = snd stack"
    and "mode (secondHRNN self) = rnn"
proof -
  obtain m1 m2 where m1: "RNNBase rnn recurrence fresh (nat (w * w * int ch)) d
        \<lparr>bidirectional = True, batch_first = True, kw_num_layers = fst stack,
         kw_dropout = dropout, kw_bias = bias\<rparr> = Inr m1"
    and m2: "RNNBase rnn recurrence fresh (2 * d) d
        \<lparr>bidirectional = True, batch_first = True, kw_num_layers = snd stack,
         kw_dropout = dropout, kw_bias = bias\<rparr> = Inr m2"
    by (simp add: RNNBase_def)
  define L0 where "L0 = \<lparr>window_size = (w, w), rnn_type = rnn, hidden_dim = d,
                  firstVRNN = m1, secondHRNN = m2, stack_size = stack\<rparr>"
  have ap: "apply_fn fn L0 = Inr self"
    using init by (simp add: ReNetLayer_init_def nn m1 m2 ebind_def L0_def)
  then obtain a b where a: "apply_layers fn m1 (all_weights m1) = Inr a"
    and b: "apply_layers fn m2 (all_weights m2) = Inr b"
    and self: "self = L0\<lparr>firstVRNN := a, secondHRNN := b\<rparr>"
    by (auto simp: apply_fn_def ebind_def L0_def split: sum.splits)
  have f1: "mode m1 = rnn" "input_size m1 = nat (w * w * int ch)" "hidden_size m1 = d"
    "num_layers m1 = fst stack"
    using m1 by (auto simp: RNNBase_def)
  have f2: "mode m2 = rnn" "input_size m2 = 2 * d" "hidden_size m2 = d"
    "num_layers m2 = snd stack"
    using m2 by (auto simp: RNNBase_def)
  show "window_size self = (w, w)" "rnn_type self = rnn" "hidden_dim self = d"
    "stack_size self = stack"
    by (simp_all add: self L0_def)
  show "input_size (firstVRNN self) = nat (w * w * int ch)"
    "hidden_size (firstVRNN self) = d" "num_layers (firstVRNN self) = fst stack"
    "mode (firstVRNN self) = rnn"
    using apply_layers_fields [OF a] f1 by (simp_all add: self)
  show "input_size (secondHRNN self) = 2 * d"
    "hidden_size (secondHRNN self) = d" "num_layers (secondHRNN self) = snd stack"
    "mode (secondHRNN self) = rnn"
    using apply_layers_fields [OF b] f2 by (simp_all add: self)
qed

lemma show_nat_0: "show_nat 0 = ''0''"
  by (simp add: show_nat.simps)

lemma example_layer_constructed:
  "ReNetLayer_init (torch_nn zeros Map.empty) (fill 1) w 1 ''RNN'' (1, 1) 1 True 0 = Inr (example_layer w)"
  by (simp add: ReNetLayer_init_def torch_nn_def RNNBase_def param_table_def gate_size_def
      ebind_def apply_fn_def example_layer_def example_rnn_def fun_eq_iff show_nat_0)

lemma get_valid_patches_short_rows:
  assumes ws: "window_size self = (int w, int w)" and sh: "shape x = [B, C, H, W]" and H: "H < w"
  shows "get_valid_patches self x = Inl RuntimeError"
  using H by (simp add: get_valid_patches_def ws sh unfold_def ebind_def)

lemma get_valid_patches_short_columns:
  assumes ws: "window_size self = (int w, int w)" and w: "0 < w"
    and sh: "shape x = [B, C, H, W]" and H: "w \<le> H" and W: "W < w"
  shows "get_valid_patches self x = Inl RuntimeError"
  using H W w by (simp add: get_valid_patches_def ws sh unfold_def ebind_def)

lemma get_valid_patches_empty_batch:
  assumes ws: "window_size self = (int w, int w)" and w: "0 < w"
    and sh: "shape x = [0, C, H, W]" and H: "w \<le> H" and W: "w \<le> W"
  shows "get_valid_patches self x = Inl RuntimeError"
  using H W w
  by (simp add: get_valid_patches_def ws sh unfold_def ebind_def permute_def size_t_def
      view_def contiguous_def infer_size_def numel_def)

section \<open>Patch extraction, output shape and initial state\<close>

lemma feature_split:
  assumes w: "0 < w" and f: "f < w * w * (C::nat)"
  shows "f div (w * w) < C" and "f div w mod w < w" and "f mod w < w"
    and "(f div (w * w) * w + f div w mod w) * w + f mod w = f"
proof -
  show "f div (w * w) < C" using f w by (simp add: less_mult_imp_div_less mult.commute)
  show "f div w mod w < w" "f mod w < w" using w by simp_all
  have "f div (w * w) = f div w div w" by (simp add: div_mult2_eq)
  then have "f div (w * w) * w + f div w mod w = f div w" by simp
  then show "(f div (w * w) * w + f div w mod w) * w + f mod w = f" by simp
qed

text \<open>
  C5 (as amended).  For a non-empty input of shape \<open>(B, C, H, W)\<close> (\<open>B, H, W \<ge> 1\<close>) whose
  height and width are multiples of the positive window size \<open>w\<close>, \<open>get_valid_patches\<close>
  returns a tensor of shape \<open>(B, w * w * C, H / w, W / w)\<close>.  Entry \<open>f\<close> of the feature vector
  at grid position \<open>(i, j)\<close> is the pixel of channel \<open>f div (w * w)\<close> at row
  \<open>(f div w) mod w\<close> and column \<open>f mod w\<close> of the block that starts at row \<open>i * w\<close> and column
  \<open>j * w\<close>: the same order for every patch, and pixels of that block only.
\<close>
theorem get_valid_patches_blocks:
  assumes "window_size self = (int w, int w)" and "0 < w"
    and "shape x = [B, C, H, W]" and "w dvd H" and "w dvd W"
    and "0 < B" and "0 < H" and "0 < W"
  shows "\<exists>y. get_valid_patches self x = Inr y
     \<and> shape y = [B, w * w * C, H div w, W div w]
     \<and> (\<forall>b f i j. b < B \<and> f < w * w * C \<and> i < H div w \<and> j < W div w \<longrightarrow>
           elem y [b, f, i, j]
           = elem x [b, f div (w * w), i * w + f div w mod w, j * w + f mod w])"
proof -
  have H: "w \<le> H" and W: "w \<le> W"
    using assms by (auto intro: dvd_imp_le)
  obtain y where y: "get_valid_patches self x = Inr y"
    and sh: "shape y = [B, w * w * C, H div w, W div w]"
    and el: "\<And>b c r s i j. b < B \<Longrightarrow> c < C \<Longrightarrow> r < w \<Longrightarrow> s < w \<Longrightarrow> i < H div w
        \<Longrightarrow> j < W div w
        \<Longrightarrow> elem y [b, (c * w + r) * w + s, i, j] = elem x [b, c, i * w + r, j * w + s]"
    using get_valid_patches_elements [OF assms(1,2,3) \<open>0 < B\<close> H W] by blast
  have "elem y [b, f, i, j] = elem x [b, f div (w * w), i * w + f div w mod w, j * w + f mod w]"
    if "b < B" "f < w * w * C" "i < H div w" "j < W div w" for b f i j
    using el [of b "f div (w * w)" "f div w mod w" "f mod w" i j]
      feature_split [OF \<open>0 < w\<close> that(2)] that by simp
  then show ?thesis using y sh by blast
qed

text \<open>The statement above on a \<open>2 \<times> 4\<close> image cut into two \<open>2 \<times> 2\<close> patches.\<close>
theorem get_valid_patches_blocks_witness:
  "window_size (example_layer 2) = (int 2, int 2) \<and> (0::nat) < 2
   \<and> shape \<lparr>shape = [1, 1, 2, 4], data = [10, 11, 12, 13, 14, 15, 16, 17::real]\<rparr> = [1, 1, 2, 4]
   \<and> (2::nat) dvd 2 \<and> (2::nat) dvd 4 \<and> (0::nat) < 1 \<and> (0::nat) < 2 \<and> (0::nat) < 4
   \<and> (\<exists>y. get_valid_patches (example_layer 2)
              \<lparr>shape = [1, 1, 2, 4], data = [10, 11, 12, 13, 14, 15, 16, 17]\<rparr> = Inr y
          \<and> shape y = [1, 4, 1, 2] \<and> elem y [0, 3, 0, 1] = 17 \<and> elem y [0, 0, 0, 1] = 12)"
proof -
  let ?x = "\<lparr>shape = [1, 1, 2, 4], data = [10, 11, 12, 13, 14, 15, 16, 17::real]\<rparr>"
  have ws: "window_size (example_layer 2) = (int 2, int 2)" by (simp add: example_layer_def)
  have sh: "shape ?x = [1, 1, 2, 4]" by simp
  obtain y where y: "get_valid_patches (example_layer 2) ?x = Inr y"
    and ysh: "shape y = [1, 2 * 2 * 1, 2 div 2, 4 div 2]"
    and el: "\<And>b f i j. b < 1 \<and> f < 2 * 2 * 1 \<and> i < 2 div 2 \<and> j < 4 div 2 \<longrightarrow>
           elem y [b, f, i, j]
           = elem ?x [b, f div (2 * 2), i * 2 + f div 2 mod 2, j * 2 + f mod 2]"
    using get_valid_patches_blocks [OF ws _ sh] by auto
  have "elem y [0, 3, 0, 1] = 17" using el [of 0 3 0 1] by (simp add: elem_def)
  moreover have "elem y [0, 0, 0, 1] = 12" using el [of 0 0 0 1] by (simp add: elem_def)
  ultimately show ?thesis using ws y ysh by simp
qed

text \<open>
  An input without rows has a height divisible by every window size, and the library
  refuses to cut a window out of it.
\<close>
theorem get_valid_patches_empty_rows_counterexample:
  "get_valid_patches (example_layer 2) \<lparr>shape = [1, 1, 0, 2], data = []\<rparr> = Inl RuntimeError"
  by (simp add: get_valid_patches_def example_layer_def unfold_def ebind_def)

text \<open>
  C2 (as amended).  For an input of shape \<open>(B, C, H, W)\<close> and a positive window size \<open>w\<close>,
  patch extraction fails exactly when \<open>H < w\<close>, \<open>W < w\<close> or \<open>B = 0\<close>.  Otherwise it succeeds
  whether or not \<open>w\<close> divides \<open>H\<close> and \<open>W\<close>: the result has shape
  \<open>(B, w * w * C, H div w, W div w)\<close> and holds the patches of the first \<open>(H div w) * w\<close> rows
  and \<open>(W div w) * w\<close> columns, the remaining rows and columns being dropped.
\<close>
theorem get_valid_patches_truncates:
  assumes ws: "window_size self = (int w, int w)" and w: "0 < w" and sh: "shape x = [B, C, H, W]"
  shows "((\<exists>e. get_valid_patches self x = Inl e) \<longleftrightarrow> (H < w \<or> W < w \<or> B = 0))
     \<and> (w \<le> H \<and> w \<le> W \<and> 0 < B \<longrightarrow>
          (\<exists>y. get_valid_patches self x = Inr y
             \<and> shape y = [B, w * w * C, H div w, W div w]
             \<and> (\<forall>b c r s i j. b < B \<and> c < C \<and> r < w \<and> s < w \<and> i < H div w \<and> j < W div w \<longrightarrow>
                  elem y [b, (c * w + r) * w + s, i, j] = elem x [b, c, i * w + r, j * w + s])))"
proof -
  have ok: "\<exists>y. get_valid_patches self x = Inr y
             \<and> shape y = [B, w * w * C, H div w, W div w]
             \<and> (\<forall>b c r s i j. b < B \<and> c < C \<and> r < w \<and> s < w \<and> i < H div w \<and> j < W div w \<longrightarrow>
                  elem y [b, (c * w + r) * w + s, i, j] = elem x [b, c, i * w + r, j * w + s])"
    if "w \<le> H" "w \<le> W" "0 < B"
    using get_valid_patches_elements [OF ws w sh that(3,1,2)] by blast
  have bad: "get_valid_patches self x = Inl RuntimeError" if "H < w \<or> W < w \<or> B = 0"
  proof (cases "H < w")
    case True
    then show ?thesis by (rule get_valid_patches_short_rows [OF ws sh])
  next
    case H: False
    show ?thesis
    proof (cases "W < w")
      case True
      then show ?thesis using H by (intro get_valid_patches_short_columns [OF ws w sh]) simp_all
    next
      case False
      then have B: "B = 0" and le: "w \<le> H" "w \<le> W" using that H by simp_all
      have "shape x = [0, C, H, W]" using sh B by simp
      then show ?thesis by (rule get_valid_patches_empty_batch [OF ws w _ le])
    qed
  qed
  have "(\<exists>e. get_valid_patches self x = Inl e) \<longleftrightarrow> (H < w \<or> W < w \<or> B = 0)"
  proof
    assume "\<exists>e. get_valid_patches self x = Inl e"
    then show "H < w \<or> W < w \<or> B = 0"
      using ok by (cases "w \<le> H \<and> w \<le> W \<and> 0 < B") auto
  next
    assume "H < w \<or> W < w \<or> B = 0"
    then show "\<exists>e. get_valid_patches self x = Inl e" using bad by blast
  qed
  then show ?thesis using ok by blast
qed

text \<open>Height 33 with window size 2: no error, and sixteen patch rows.\<close>
theorem get_valid_patches_truncates_witness:
  "window_size (example_layer 2) = (int 2, int 2) \<and> (0::nat) < 2
   \<and> shape \<lparr>shape = [1, 1, 33, 2], data = replicate 66 (0::real)\<rparr> = [1, 1, 33, 2]
   \<and> \<not> (\<exists>e. get_valid_patches (example_layer 2)
                \<lparr>shape = [1, 1, 33, 2], data = replicate 66 0\<rparr> = Inl e)
   \<and> (\<exists>y. get_valid_patches (example_layer 2)
              \<lparr>shape = [1, 1, 33, 2], data = replicate 66 0\<rparr> = Inr y
          \<and> shape y = [1, 4, 16, 1])"
proof -
  let ?x = "\<lparr>shape = [1, 1, 33, 2], data = replicate 66 (0::real)\<rparr>"
  have ws: "window_size (example_layer 2) = (int 2, int 2)" by (simp add: example_layer_def)
  have sh: "shape ?x = [1, 1, 33, 2]" by simp
  have "(0::nat) < 2" by simp
  from get_valid_patches_truncates [OF ws this sh]
  have 1: "\<not> (\<exists>e. get_valid_patches (example_layer 2) ?x = Inl e)"
    and 2: "\<exists>y. get_valid_patches (example_layer 2) ?x = Inr y \<and> shape y = [1, 4, 16, 1]"
    by auto
  show ?thesis using ws 1 2 by simp
qed

text \<open>
  Patch extraction on an input of height 33 with window size 2 returns a tensor, of sixteen
  patch rows; it does not raise.
\<close>
theorem get_valid_patches_odd_height_counterexample:
  "map_sum id shape
     (get_valid_patches (example_layer 2) \<lparr>shape = [1, 1, 33, 2], data = replicate 66 0\<rparr>)
   = Inr [1, 4, 16, 1]"
  by (simp add: get_valid_patches_def example_layer_def unfold_def ebind_def permute_def
      size_t_def view_def contiguous_def infer_size_def numel_def)

text \<open>
  An empty batch of \<open>2 \<times> 2\<close> images, whose height and width are multiples of the window
  size 2: the forward call raises, in the patch extraction, where the library cannot
  infer the last dimension of a view of no elements.
\<close>
theorem forward_empty_batch_counterexample:
  "forward (example_layer 2) \<lparr>shape = [0, 1, 2, 2], data = []\<rparr> = Inl RuntimeError"
  by (simp add: forward_def get_valid_patches_def example_layer_def unfold_def ebind_def
      permute_def size_t_def view_def contiguous_def infer_size_def numel_def)

text \<open>
  C1 (as amended).  For a layer constructed with a positive window size \<open>w\<close> and hidden
  dimension \<open>d\<close> from a recurrent class of the library, and a non-empty 4-D input of shape
  \<open>(B, C, H, W)\<close> (\<open>B, H, W \<ge> 1\<close>) with \<open>C\<close> the constructed channel size and \<open>H\<close>, \<open>W\<close>
  multiples of \<open>w\<close>, \<open>forward\<close> returns a tensor of shape \<open>(B, 2 * d, H / w, W / w)\<close>: the
  channel depth is \<open>2 * d\<close> whatever the channel size.
\<close>
theorem forward_shape:
  fixes x :: "('a::zero) tensor"
  assumes nn: "nn rnn = Some (RNNBase rnn recurrence fresh)"
    and init: "ReNetLayer_init nn fn (int w) d rnn stack ch bias dropout = Inr self"
    and w: "0 < w" and sh: "shape x = [B, C, H, W]" and C: "C = ch"
    and dvd: "w dvd H" "w dvd W" and pos: "0 < B" "0 < H" "0 < W"
  shows "\<exists>y. forward self x = Inr y \<and> shape y = [B, 2 * d, H div w, W div w]"
proof -
  note f = constructed_fields [OF nn init]
  have H: "w \<le> H" and W: "w \<le> W" using dvd pos by (auto intro: dvd_imp_le)
  have "int w * int w * int ch = int (w * w * ch)" by simp
  then have "nat (int w * int w * int ch) = w * w * ch" by (simp only: nat_int)
  then have inp: "input_size (firstVRNN self) = w * w * C"
    using f(5) C by simp
  have "\<exists>patches y. get_valid_patches self x = Inr patches \<and> forward self x = Inr y
     \<and> shape y = [B, 2 * hidden_dim self, H div w, W div w] \<and> well_formed y
     \<and> (\<forall>b k i j. b < B \<and> k < 2 * hidden_dim self \<and> i < H div w \<and> j < W div w \<longrightarrow>
           elem y [b, k, i, j] = second_sweep self patches b j ! i ! k)"
    using f(1,2,3,4,6-12) w sh pos(1) H W inp by (intro forward_elements) simp_all
  then show ?thesis using f(3) by auto
qed

text \<open>Three \<open>4 \<times> 6\<close> images through the concrete layer of window size 2.\<close>
theorem forward_shape_witness:
  "torch_nn zeros Map.empty ''RNN'' = Some (RNNBase ''RNN'' elman zeros)
   \<and> ReNetLayer_init (torch_nn zeros Map.empty) (fill 1) (int 2) 1 ''RNN'' (1, 1) 1 True 0
       = Inr (example_layer 2)
   \<and> (0::nat) < 2 \<and> shape \<lparr>shape = [3, 1, 4, 6], data = replicate 72 (0::real)\<rparr> = [3, 1, 4, 6]
   \<and> (2::nat) dvd 4 \<and> (2::nat) dvd 6
   \<and> (\<exists>y. forward (example_layer 2) \<lparr>shape = [3, 1, 4, 6], data = replicate 72 0\<rparr> = Inr y
          \<and> shape y = [3, 2, 2, 3])"
proof -
  let ?x = "\<lparr>shape = [3, 1, 4, 6], data = replicate 72 (0::real)\<rparr>"
  have nn: "torch_nn zeros Map.empty ''RNN'' = Some (RNNBase ''RNN'' elman zeros)"
    by (simp add: torch_nn_def)
  have init: "ReNetLayer_init (torch_nn zeros Map.empty) (fill 1) (int 2) 1 ''RNN'' (1, 1) 1 True 0
       = Inr (example_layer 2)"
    using example_layer_constructed [of 2] by simp
  have sh: "shape ?x = [3, 1, 4, 6]" by simp
  have "\<exists>y. forward (example_layer 2) ?x = Inr y \<and> shape y = [3, 2 * 1, 4 div 2, 6 div 2]"
    by (rule forward_shape [OF nn init _ sh]) simp_all
  then show ?thesis using nn init by simp
qed

text \<open>
  C6.  For a reference tensor \<open>x\<close> with a second dimension of length \<open>n\<close> and a stack depth
  \<open>s\<close>, \<open>get_init_hidden\<close> returns, when the type is \<^verbatim>\<open>LSTM\<close>, a pair of all-zero tensors
  of shape \<open>(2 * s, n, hidden_dim)\<close>, and for every other type a single all-zero tensor of
  that shape.
\<close>
theorem get_init_hidden_zeros:
  fixes x :: "('a::zero) tensor"
  assumes "size_t x 1 = Inr n"
  shows "(rnn_type self = ''LSTM'' \<longrightarrow>
            (\<exists>h c. get_init_hidden self x s = Inr (HiddenCell h c)
               \<and> shape h = [2 * s, n, hidden_dim self] \<and> shape c = [2 * s, n, hidden_dim self]
               \<and> data h = replicate (2 * s * n * hidden_dim self) 0
               \<and> data c = replicate (2 * s * n * hidden_dim self) 0))
       \<and> (rnn_type self \<noteq> ''LSTM'' \<longrightarrow>
            (\<exists>h. get_init_hidden self x s = Inr (Hidden h)
               \<and> shape h = [2 * s, n, hidden_dim self]
               \<and> data h = replicate (2 * s * n * hidden_dim self) 0))"
  using assms by (simp add: get_init_hidden_def ebind_def zeros_def mult.assoc)

text \<open>Stack depths 2 and 3: leading dimensions 4 and 6.\<close>
theorem get_init_hidden_zeros_witness:
  "size_t \<lparr>shape = [1, 5, 2, 2], data = replicate 20 (0::real)\<rparr> 1 = Inr 5
   \<and> (\<exists>h c. get_init_hidden ((example_layer 2)\<lparr>rnn_type := ''LSTM''\<rparr>)
               \<lparr>shape = [1, 5, 2, 2], data = replicate 20 0\<rparr> 2 = Inr (HiddenCell h c)
          \<and> shape h = [4, 5, 1] \<and> shape c = [4, 5, 1])
   \<and> (\<exists>h. get_init_hidden (example_layer 2)
               \<lparr>shape = [1, 5, 2, 2], data = replicate 20 0\<rparr> 3 = Inr (Hidden h)
          \<and> shape h = [6, 5, 1] \<and> data h = replicate 30 0)"
proof -
  let ?x = "\<lparr>shape = [1, 5, 2, 2], data = replicate 20 (0::real)\<rparr>"
  have sz: "size_t ?x 1 = Inr 5" by (simp add: size_t_def)
  have 1: "\<exists>h c. get_init_hidden ((example_layer 2)\<lparr>rnn_type := ''LSTM''\<rparr>) ?x 2
               = Inr (HiddenCell h c) \<and> shape h = [4, 5, 1] \<and> shape c = [4, 5, 1]"
    using get_init_hidden_zeros [OF sz, of "(example_layer 2)\<lparr>rnn_type := ''LSTM''\<rparr>" 2]
    by (auto simp: example_layer_def)
  have 2: "\<exists>h. get_init_hidden (example_layer 2) ?x 3 = Inr (Hidden h)
               \<and> shape h = [6, 5, 1] \<and> data h = replicate 30 0"
    using get_init_hidden_zeros [OF sz, of "example_layer 2" 3]
    by (auto simp: example_layer_def)
  show ?thesis using sz 1 2 by blast
qed

section \<open>The concrete layer evaluated\<close>

lemma example_rnn_weights:
  "weight_at (params (example_rnn n)) ''weight_ih_l0'' [0, i] = (if i < n then 1 else weight_at (params (example_rnn n)) ''weight_ih_l0'' [0, i])"
  "weight_at (params (example_rnn n)) ''weight_hh_l0'' [0, 0] = 1"
  "weight_at (params (example_rnn n)) ''bias_ih_l0'' [0] = 0"
  "weight_at (params (example_rnn n)) ''bias_hh_l0'' [0] = 0"
  "weight_at (params (example_rnn n)) ''weight_ih_l0_reverse'' [0, i] = (if i < n then 1 else weight_at (params (example_rnn n)) ''weight_ih_l0_reverse'' [0, i])"
  "weight_at (params (example_rnn n)) ''weight_hh_l0_reverse'' [0, 0] = 1"
  "weight_at (params (example_rnn n)) ''bias_ih_l0_reverse'' [0] = 0"
  "weight_at (params (example_rnn n)) ''bias_hh_l0_reverse'' [0] = 0"
  by (simp_all add: weight_at_def example_rnn_def fill_def zeros_def elem_def)

lemma run_example: "run (example_rnn n) = elman"
  by (simp add: example_rnn_def)

lemma zero_state_pair: "zero_state 2 (Suc 0) = [[0], [0]]"
  by (simp add: zero_state_def eval_nat_numeral)

lemma elman_one_layer:
  "elman ps [[a], [b]] c xs
   = bidirectional_layer (elman_step ps 0 [] (Suc 0)) (elman_step ps 0 ''_reverse'' (Suc 0))
       (\<lambda>h. h) [a] [b] xs"
  by (simp add: elman_def eval_nat_numeral)

lemma example_step1:
  "elman_step (params (example_rnn (Suc 0))) 0 [] (Suc 0) [h] [x] = [tanh (x + h)]"
  "elman_step (params (example_rnn (Suc 0))) 0 ''_reverse'' (Suc 0) [h] [x] = [tanh (x + h)]"
  by (simp_all add: elman_step_def lin_ih_def lin_hh_def example_rnn_weights show_nat_0)

lemma example_step2:
  "elman_step (params (example_rnn 2)) 0 [] (Suc 0) [h] [p, q] = [tanh (p + q + h)]"
  "elman_step (params (example_rnn 2)) 0 ''_reverse'' (Suc 0) [h] [p, q] = [tanh (p + q + h)]"
  by (simp_all add: elman_step_def lin_ih_def lin_hh_def example_rnn_weights upt_rec show_nat_0)

lemma example_sweep1_single:
  "sweep_output (example_layer w) (example_rnn (Suc 0)) (Suc 0) [[a]] = [[tanh a, tanh a]]"
  by (simp add: sweep_output_def example_layer_def zero_state_pair elman_one_layer
      bidirectional_layer_def example_step1 run_example)

lemma example_sweep1_pair:
  "sweep_output (example_layer w) (example_rnn (Suc 0)) (Suc 0) [[a], [b]]
   = [[tanh a, tanh (a + tanh b)], [tanh (b + tanh a), tanh b]]"
  by (simp add: sweep_output_def example_layer_def zero_state_pair elman_one_layer
      bidirectional_layer_def example_step1 run_example)

lemma example_sweep2_single:
  "sweep_output (example_layer w) (example_rnn 2) (Suc 0) [[p, q]]
   = [[tanh (p + q), tanh (p + q)]]"
  by (simp add: sweep_output_def example_layer_def zero_state_pair elman_one_layer
      bidirectional_layer_def example_step2 run_example)

lemma example_sweep2_pair:
  "sweep_output (example_layer w) (example_rnn 2) (Suc 0) [[p, q], [r, s]]
   = [[tanh (p + q), tanh (p + q + tanh (r + s))], [tanh (r + s + tanh (p + q)), tanh (r + s)]]"
  by (simp add: sweep_output_def example_layer_def zero_state_pair elman_one_layer
      bidirectional_layer_def example_step2 run_example)

lemma example_layer_fields:
  "window_size (example_layer w) = (w, w)" "rnn_type (example_layer w) = ''RNN''"
  "hidden_dim (example_layer w) = 1" "stack_size (example_layer w) = (1, 1)"
  "firstVRNN (example_layer w) = example_rnn (nat (w * w))"
  "secondHRNN (example_layer w) = example_rnn 2"
  by (simp_all add: example_layer_def)

lemma example_rnn_fields:
  "mode (example_rnn n) = ''RNN''" "input_size (example_rnn n) = n"
  "hidden_size (example_rnn n) = 1" "num_layers (example_rnn n) = 1"
  by (simp_all add: example_rnn_def)


lemma example_forward:
  fixes x :: "real tensor"
  assumes sh: "shape x = [Suc 0, Suc 0, H, W]" and H: "0 < H" and W: "0 < W"
  shows "\<exists>y. forward (example_layer 1) x = Inr y
     \<and> (\<forall>k i j. k < 2 \<and> i < H \<and> j < W \<longrightarrow>
          elem y [0, k, i, j]
          = sweep_output (example_layer 1) (example_rnn 2) (Suc 0)
              (map (\<lambda>i'. map (\<lambda>k'.
                   sweep_output (example_layer 1) (example_rnn (Suc 0)) (Suc 0)
                     (map (\<lambda>j'. [elem x [0, 0, i', j']]) [0..<W]) ! j ! k') [0..<2]) [0..<H])
              ! i ! k)"
proof -
  let ?L = "example_layer 1"
  have ws: "window_size ?L = (int (Suc 0), int (Suc 0))" by (simp add: example_layer_fields)
  have H1: "Suc 0 \<le> H" and W1: "Suc 0 \<le> W" using H W by simp_all
  obtain P where P: "get_valid_patches ?L x = Inr P" and P_sh: "shape P = [Suc 0, Suc 0, H, W]"
    and P_el: "\<And>i j. i < H \<Longrightarrow> j < W \<Longrightarrow> elem P [0, 0, i, j] = elem x [0, 0, i, j]"
  proof -
    obtain P where 1: "get_valid_patches ?L x = Inr P"
      and 2: "shape P = [Suc 0, Suc 0 * Suc 0 * Suc 0, H div Suc 0, W div Suc 0]"
      and 3: "\<forall>b c r s i j. b < Suc 0 \<and> c < Suc 0 \<and> r < Suc 0 \<and> s < Suc 0 \<and> i < H div Suc 0
            \<and> j < W div Suc 0 \<longrightarrow>
          elem P [b, (c * Suc 0 + r) * Suc 0 + s, i, j]
          = elem x [b, c, i * Suc 0 + r, j * Suc 0 + s]"
      using get_valid_patches_elements [OF ws _ sh _ H1 W1] by auto
    have "elem P [0, 0, i, j] = elem x [0, 0, i, j]" if "i < H" "j < W" for i j
      using 3 [rule_format, of 0 0 0 0 i j] that by simp
    then show ?thesis using that 1 2 by simp
  qed
  have "\<exists>patches y. get_valid_patches ?L x = Inr patches \<and> forward ?L x = Inr y
     \<and> shape y = [Suc 0, 2 * hidden_dim ?L, H div Suc 0, W div Suc 0] \<and> well_formed y
     \<and> (\<forall>b k i j. b < Suc 0 \<and> k < 2 * hidden_dim ?L \<and> i < H div Suc 0 \<and> j < W div Suc 0 \<longrightarrow>
           elem y [b, k, i, j] = second_sweep ?L patches b j ! i ! k)"
    using H1 W1 sh by (intro forward_elements [OF ws])
      (simp_all add: example_layer_fields example_rnn_fields)
  then obtain y where y: "forward ?L x = Inr y"
    and y_el: "\<And>k i j. k < 2 \<Longrightarrow> i < H \<Longrightarrow> j < W \<Longrightarrow>
           elem y [0, k, i, j] = second_sweep ?L P 0 j ! i ! k"
    using P by (auto simp: example_layer_fields)
  have row: "patch_row P 0 i = map (\<lambda>j'. [elem x [0, 0, i, j']]) [0..<W]" if "i < H" for i
    unfolding patch_row_def P_sh using that by (simp add: P_el cong: map_cong)
  have col: "patch_column ?L P 0 j
      = map (\<lambda>i'. map (\<lambda>k'.
                   sweep_output ?L (example_rnn (Suc 0)) (Suc 0)
                     (map (\<lambda>j'. [elem x [0, 0, i', j']]) [0..<W]) ! j ! k') [0..<2]) [0..<H]"
    for j
    unfolding patch_column_def P_sh first_sweep_def
    by (simp add: example_layer_fields row cong: map_cong)
  have "elem y [0, k, i, j]
          = sweep_output ?L (example_rnn 2) (Suc 0)
              (map (\<lambda>i'. map (\<lambda>k'.
                   sweep_output ?L (example_rnn (Suc 0)) (Suc 0)
                     (map (\<lambda>j'. [elem x [0, 0, i', j']]) [0..<W]) ! j ! k') [0..<2]) [0..<H])
              ! i ! k" if "k < 2" "i < H" "j < W" for k i j
    using y_el [OF that] by (simp add: second_sweep_def col example_layer_fields)
  then show ?thesis using y by blast
qed

lemma upt_2: "[0..<2] = [0, Suc 0]"
  by (simp add: upt_rec)


section \<open>What the sweeps depend on\<close>

text \<open>
  C3, on the code.  \<open>apply_one_direction\<close> hands the network a batch of \<open>S * B\<close> sequences
  that run along dimension 2 of its input (see \<open>apply_one_direction_elements\<close>): the
  output at \<open>(s, b, l)\<close> depends on the whole of dimension 2 at \<open>(s, b)\<close> and on no other
  position of dimension 0.  Here two inputs of shape \<open>(2, 1, 2, 1)\<close> differ only at
  \<open>(s, b, l) = (0, 0, 0)\<close>; the outputs differ at \<open>(0, 0, 1)\<close>, another position of
  dimension 2, and the output at position 1 of dimension 0 is what the all-zero input
  gives.
\<close>

theorem apply_one_direction_sweeps_last_axis:
  "elem (projr (apply_one_direction (example_layer 1)
            \<lparr>shape = [2, 1, 2, 1], data = [1, 0, 0, 0]\<rparr> (example_rnn 1) 1)) [0, 0, 1, 0]
     = tanh (tanh 1)
   \<and> elem (projr (apply_one_direction (example_layer 1)
            \<lparr>shape = [2, 1, 2, 1], data = [0, 0, 0, 0]\<rparr> (example_rnn 1) 1)) [0, 0, 1, 0]
     = 0
   \<and> tanh (tanh 1) \<noteq> (0::real)
   \<and> elem (projr (apply_one_direction (example_layer 1)
            \<lparr>shape = [2, 1, 2, 1], data = [1, 0, 0, 0]\<rparr> (example_rnn 1) 1)) [1, 0, 0, 0]
     = 0
   \<and> elem (projr (apply_one_direction (example_layer 1)
            \<lparr>shape = [2, 1, 2, 1], data = [1, 0, 0, 0]\<rparr> (example_rnn 1) 1)) [1, 0, 0, 1]
     = 0
   \<and> elem (projr (apply_one_direction (example_layer 1)
            \<lparr>shape = [2, 1, 2, 1], data = [1, 0, 0, 0]\<rparr> (example_rnn 1) 1)) [1, 0, 1, 0]
     = 0
   \<and> elem (projr (apply_one_direction (example_layer 1)
            \<lparr>shape = [2, 1, 2, 1], data = [1, 0, 0, 0]\<rparr> (example_rnn 1) 1)) [1, 0, 1, 1]
     = 0"
proof -
  let ?L = "example_layer 1"
  let ?x1 = "\<lparr>shape = [2, 1, 2, 1], data = [1, 0, 0, 0::real]\<rparr>"
  let ?x0 = "\<lparr>shape = [2, 1, 2, 1], data = [0, 0, 0, 0::real]\<rparr>"
  have el: "\<exists>y. apply_one_direction ?L x (example_rnn 1) 1 = Inr y
     \<and> (\<forall>s b l k. s < 2 \<and> b < 1 \<and> l < 2 \<and> k < 2 * hidden_dim ?L \<longrightarrow>
          elem y [s, b, l, k] = sweep_output ?L (example_rnn 1) 1 (row_of x s b) ! l ! k)"
    if "shape x = [2, 1, 2, 1]" for x :: "real tensor"
    using apply_one_direction_elements [of x 2 1 2 1 "example_rnn 1" ?L 1] that
    by (auto simp: example_rnn_fields example_layer_fields)
  obtain y1 where y1: "apply_one_direction ?L ?x1 (example_rnn 1) 1 = Inr y1"
    and e1: "\<And>s l k. s < 2 \<Longrightarrow> l < 2 \<Longrightarrow> k < 2 \<Longrightarrow>
          elem y1 [s, 0, l, k] = sweep_output ?L (example_rnn 1) 1 (row_of ?x1 s 0) ! l ! k"
    using el [of ?x1] by (auto simp: example_layer_fields)
  obtain y0 where y0: "apply_one_direction ?L ?x0 (example_rnn 1) 1 = Inr y0"
    and e0: "\<And>s l k. s < 2 \<Longrightarrow> l < 2 \<Longrightarrow> k < 2 \<Longrightarrow>
          elem y0 [s, 0, l, k] = sweep_output ?L (example_rnn 1) 1 (row_of ?x0 s 0) ! l ! k"
    using el [of ?x0] by (auto simp: example_layer_fields)
  have r10: "row_of ?x1 0 0 = [[1], [0]]" and r11: "row_of ?x1 1 0 = [[0], [0]]"
    and r00: "row_of ?x0 0 0 = [[0], [0]]"
    by (simp_all add: row_of_def elem_def upt_rec)
  have s10: "sweep_output ?L (example_rnn 1) 1 (row_of ?x1 0 0)
      = [[tanh 1, tanh 1], [tanh (tanh 1), 0]]"
    unfolding r10 by (simp add: example_sweep1_pair)
  have s11: "sweep_output ?L (example_rnn 1) 1 (row_of ?x1 1 0) = [[0, 0], [0, 0]]"
    unfolding r11 by (simp add: example_sweep1_pair)
  have s00: "sweep_output ?L (example_rnn 1) 1 (row_of ?x0 0 0) = [[0, 0], [0, 0]]"
    unfolding r00 by (simp add: example_sweep1_pair)
  have a: "elem y1 [0, 0, 1, 0]
      = sweep_output ?L (example_rnn 1) 1 (row_of ?x1 0 0) ! 1 ! 0"
    by (rule e1) simp_all
  have b: "elem y0 [0, 0, 1, 0]
      = sweep_output ?L (example_rnn 1) 1 (row_of ?x0 0 0) ! 1 ! 0"
    by (rule e0) simp_all
  have c: "elem y1 [1, 0, l, k] = [[0, 0], [0, 0]] ! l ! k" if "l < 2" "k < 2" for l k
  proof -
    have "elem y1 [1, 0, l, k]
      = sweep_output ?L (example_rnn 1) 1 (row_of ?x1 1 0) ! l ! k"
      using that by (intro e1) simp_all
    then show ?thesis by (simp only: s11)
  qed
  have "elem y1 [0, 0, 1, 0] = tanh (tanh 1)"
    by (simp only: a s10) simp
  moreover have "elem y0 [0, 0, 1, 0] = 0"
    by (simp only: b s00) simp
  moreover have "elem y1 [1, 0, 0, 0] = 0" "elem y1 [1, 0, 0, 1] = 0"
    "elem y1 [1, 0, 1, 0] = 0" "elem y1 [1, 0, 1, 1] = 0"
    using c [of 0 0] c [of 0 1] c [of 1 0] c [of 1 1] by simp_all
  ultimately show ?thesis unfolding y1 y0 sum.sel by simp
qed

text \<open>
  C4.  For the concrete layer (all weights one, all biases zero, window size 1) two
  \<open>2 \<times> 1\<close> images that differ only in the top pixel give outputs that differ at the
  bottom position, and two \<open>1 \<times> 2\<close> images that differ only in the left pixel give outputs
  that differ at the right position: information travels from one end of either axis to
  the other through the two sweeps.
\<close>

theorem forward_carries_information_along_both_axes:
  "\<exists>self yv yv' yh yh'.
      ReNetLayer_init (torch_nn zeros Map.empty) (fill 1) 1 1 ''RNN'' (1, 1) 1 True 0 = Inr self
    \<and> forward self \<lparr>shape = [1, 1, 2, 1], data = [1, 0]\<rparr> = Inr yv
    \<and> forward self \<lparr>shape = [1, 1, 2, 1], data = [0, 0]\<rparr> = Inr yv'
    \<and> elem yv [0, 0, 1, 0] \<noteq> elem yv' [0, 0, 1, 0]
    \<and> forward self \<lparr>shape = [1, 1, 1, 2], data = [1, 0]\<rparr> = Inr yh
    \<and> forward self \<lparr>shape = [1, 1, 1, 2], data = [0, 0]\<rparr> = Inr yh'
    \<and> elem yh [0, 0, 0, 1] \<noteq> elem yh' [0, 0, 0, 1]"
proof -
  let ?L = "example_layer 1"
  let ?v = "\<lparr>shape = [1, 1, 2, 1], data = [1, 0::real]\<rparr>"
  let ?v' = "\<lparr>shape = [1, 1, 2, 1], data = [0, 0::real]\<rparr>"
  let ?h = "\<lparr>shape = [1, 1, 1, 2], data = [1, 0::real]\<rparr>"
  let ?h' = "\<lparr>shape = [1, 1, 1, 2], data = [0, 0::real]\<rparr>"
  have init: "ReNetLayer_init (torch_nn zeros Map.empty) (fill 1) 1 1 ''RNN'' (1, 1) 1 True 0 = Inr ?L"
    by (rule example_layer_constructed)
  have pos: "0 < tanh (1::real)" by simp
  obtain yv where yv: "forward ?L ?v = Inr yv"
    and "elem yv [0, 0, 1, 0] = tanh (tanh (tanh 1 + tanh 1))"
    using example_forward [of ?v 2 1]
    by (auto simp: upt_2 elem_def example_sweep1_single example_sweep2_pair)
  moreover obtain yv' where yv': "forward ?L ?v' = Inr yv'"
    and "elem yv' [0, 0, 1, 0] = 0"
    using example_forward [of ?v' 2 1]
    by (auto simp: upt_2 elem_def example_sweep1_single example_sweep2_pair)
  moreover obtain yh where yh: "forward ?L ?h = Inr yh"
    and "elem yh [0, 0, 0, 1] = tanh (tanh (tanh 1))"
    using example_forward [of ?h 1 2]
    by (auto simp: upt_2 elem_def example_sweep1_pair example_sweep2_single)
  moreover obtain yh' where yh': "forward ?L ?h' = Inr yh'"
    and "elem yh' [0, 0, 0, 1] = 0"
    using example_forward [of ?h' 1 2]
    by (auto simp: upt_2 elem_def example_sweep1_pair example_sweep2_single)
  moreover have "tanh (tanh (tanh 1 + tanh 1)) \<noteq> (0::real)"
    using pos by simp
  moreover have "tanh (tanh (tanh 1)) \<noteq> (0::real)" by simp
  ultimately show ?thesis using init by (intro exI [of _ ?L]) auto
qed

section \<open>Parameter names and weight initialisation\<close>

subsection \<open>Parameter names\<close>























section \<open>The store\<close>

lemma lives_append: "lives \<sigma> t \<Longrightarrow> lives (\<sigma> @ ext) t"
  by (simp add: lives_def)

lemma value_of_append: "lives \<sigma> t \<Longrightarrow> value_of (\<sigma> @ ext) t = value_of \<sigma> t"
  by (simp add: lives_def value_of_def nth_append)

lemma all_live_append: "all_live \<sigma> ts \<Longrightarrow> all_live (\<sigma> @ ext) ts"
  by (simp add: all_live_def list_all_iff lives_append)

lemma values_append: "all_live \<sigma> ts \<Longrightarrow> map (value_of (\<sigma> @ ext)) ts = map (value_of \<sigma>) ts"
  by (simp add: all_live_def list_all_iff value_of_append)

lemma hidden_lives_append: "hidden_lives \<sigma> hx \<Longrightarrow> hidden_lives (\<sigma> @ ext) hx"
  by (cases hx) (simp_all add: hidden_lives_def lives_append)

lemma hidden_value_append:
  "hidden_lives \<sigma> hx \<Longrightarrow> hidden_value (\<sigma> @ ext) hx = hidden_value \<sigma> hx"
  by (cases hx) (simp_all add: hidden_lives_def hidden_value_def value_of_append)

lemma computes_bind:
  assumes m: "computes m \<sigma> L1 A1 val1"
    and f: "\<And>t \<sigma>' ext. \<sigma>' = \<sigma> @ ext \<Longrightarrow> L1 \<sigma>' t \<Longrightarrow> val1 = Inr (A1 \<sigma>' t)
              \<Longrightarrow> computes (f t) \<sigma>' L2 A2 (g (A1 \<sigma>' t))"
  shows "computes (sbind m f) \<sigma> L2 A2 (ebind val1 g)"
proof -
  obtain r \<sigma>' where r: "m \<sigma> = (r, \<sigma>')" by (cases "m \<sigma>") auto
  from m r obtain ext where ext: "\<sigma>' = \<sigma> @ ext" by (auto simp: computes_def)
  show ?thesis
  proof (cases r)
    case (Inl e)
    then have "val1 = Inl e" using m r by (simp add: computes_def)
    then show ?thesis using r Inl ext by (simp add: computes_def sbind_def ebind_def)
  next
    case (Inr t)
    then have L: "L1 \<sigma>' t" and v: "val1 = Inr (A1 \<sigma>' t)" using m r by (simp_all add: computes_def)
    have c: "computes (f t) \<sigma>' L2 A2 (g (A1 \<sigma>' t))" using f [OF ext L v] .
    obtain r2 \<sigma>2 where r2: "f t \<sigma>' = (r2, \<sigma>2)" by (cases "f t \<sigma>'") auto
    from c r2 obtain ext2 where "\<sigma>2 = \<sigma>' @ ext2" by (auto simp: computes_def)
    then have "\<sigma>2 = \<sigma> @ (ext @ ext2)" using ext by simp
    then have "\<exists>e. \<sigma>2 = \<sigma> @ e" by blast
    then show ?thesis using c r r2 Inr v by (simp add: computes_def sbind_def ebind_def)
  qed
qed

lemma computes_bind_pure:
  assumes m: "computes m \<sigma> L1 A1 (Inr v1)"
    and f: "\<And>t \<sigma>' ext. \<sigma>' = \<sigma> @ ext \<Longrightarrow> L1 \<sigma>' t \<Longrightarrow> A1 \<sigma>' t = v1
              \<Longrightarrow> computes (f t) \<sigma>' L2 A2 val"
  shows "computes (sbind m f) \<sigma> L2 A2 val"
proof -
  have "computes (sbind m f) \<sigma> L2 A2 (ebind (Inr v1) (\<lambda>_. val))"
    using m by (rule computes_bind) (use f in auto)
  then show ?thesis by (simp add: ebind_def)
qed

lemma computes_return: "L \<sigma> r \<Longrightarrow> A \<sigma> r = v \<Longrightarrow> computes (sreturn r) \<sigma> L A (Inr v)"
  by (auto simp: computes_def sreturn_def)

lemma computes_shared_view:
  "lives \<sigma> t \<Longrightarrow> value_of \<sigma> t = v \<Longrightarrow> computes (shared_view f t) \<sigma> lives value_of (f v)"
  by (cases "f v") (auto simp: computes_def shared_view_def lives_def value_of_def)

lemma computes_size:
  "value_of \<sigma> t = v \<Longrightarrow> computes (size_st t i) \<sigma> (\<lambda>_ _. True) (\<lambda>_ n. n) (size_t v i)"
  by (cases "size_t v i") (auto simp: computes_def size_st_def)

lemma computes_allocate: "computes (allocate v) \<sigma> lives value_of (Inr v)"
  by (simp add: computes_def allocate_def lives_def value_of_def)

lemma computes_contiguous:
  "lives \<sigma> t \<Longrightarrow> value_of \<sigma> t = v
   \<Longrightarrow> computes (contiguous_st is_contiguous t) \<sigma> lives value_of (Inr (contiguous v))"
  using computes_allocate [of "contiguous v" \<sigma>]
  by (auto simp: contiguous_st_def computes_def contiguous_def)

lemma computes_split:
  assumes "lives \<sigma> t" and "value_of \<sigma> t = v"
  shows "computes (split_st t n d) \<sigma> all_live (\<lambda>\<sigma> ts. map (value_of \<sigma>) ts) (split v n d)"
proof (cases "split v n d")
  case (Inl e)
  then show ?thesis using assms by (auto simp: computes_def split_st_def)
next
  case (Inr vs)
  let ?ts = "map (\<lambda>k. t\<lparr>reading :=
                     (\<lambda>s. case split (reading t s) n d of
                            Inl e \<Rightarrow> reading t s | Inr ws \<Rightarrow> ws ! k)\<rparr>) [0..<length vs]"
  have "all_live \<sigma> ?ts" using assms(1) by (simp add: all_live_def list_all_iff lives_def)
  moreover have "map (value_of \<sigma>) ?ts = map (\<lambda>k. vs ! k) [0..<length vs]"
    using assms(2) Inr by (simp add: value_of_def)
  then have "map (value_of \<sigma>) ?ts = vs" by (simp add: map_nth)
  ultimately show ?thesis using assms Inr by (simp add: computes_def split_st_def)
qed

lemma computes_cat:
  "all_live \<sigma> ts \<Longrightarrow> map (value_of \<sigma>) ts = vs \<Longrightarrow> computes (cat_st ts d) \<sigma> lives value_of (cat vs d)"
  using computes_allocate [of _ \<sigma>]
  by (cases "cat vs d") (auto simp: computes_def cat_st_def)

lemma computes_rnn_call:
  "value_of \<sigma> inp = v \<Longrightarrow> hidden_value \<sigma> hx = hv
   \<Longrightarrow> computes (rnn_call_st m inp hx) \<sigma> lives value_of (rnn_call m v hv)"
  using computes_allocate [of _ \<sigma>]
  by (cases "rnn_call m v hv") (auto simp: computes_def rnn_call_st_def)

lemmas store_simps = value_of_append lives_append all_live_append values_append
  hidden_lives_append hidden_value_append

lemma get_valid_patches_st_computes:
  assumes "lives \<sigma> x" and "value_of \<sigma> x = vx"
  shows "computes (get_valid_patches_st is_contiguous self x) \<sigma> lives value_of
           (get_valid_patches self vx)"
  unfolding get_valid_patches_st_def get_valid_patches_def
  apply (rule computes_bind)
   apply (rule computes_shared_view; simp add: assms)
  apply (rule computes_bind)
   apply (rule computes_shared_view; simp add: store_simps del: append_assoc)
  apply (rule computes_bind)
   apply (rule computes_shared_view; simp add: store_simps del: append_assoc)
  apply (rule computes_bind)
   apply (rule computes_size; simp add: store_simps del: append_assoc)
  apply (rule computes_bind)
   apply (rule computes_size; simp add: store_simps del: append_assoc)
  apply (rule computes_bind)
   apply (rule computes_size; simp add: store_simps del: append_assoc)
  apply (rule computes_bind_pure)
   apply (rule computes_contiguous; simp add: store_simps del: append_assoc)
  apply (rule computes_bind)
   apply (rule computes_shared_view; simp add: store_simps del: append_assoc)
  apply (rule computes_shared_view; simp add: store_simps del: append_assoc)
  done

lemma get_init_hidden_st_computes:
  fixes x :: "('a::zero) tref"
  assumes "lives \<sigma> x" and "value_of \<sigma> x = vx"
  shows "computes (get_init_hidden_st self x stack) \<sigma> hidden_lives hidden_value
           (get_init_hidden self vx stack)"
proof (cases "rnn_type self = ''LSTM''")
  case True
  show ?thesis
    unfolding get_init_hidden_st_def get_init_hidden_def if_P [OF True]
    apply (rule computes_bind)
     apply (rule computes_size; simp add: assms)
    apply (rule computes_bind_pure)
     apply (rule computes_allocate)
    apply (rule computes_bind)
     apply (rule computes_size; simp add: assms store_simps del: append_assoc)
    apply (rule computes_bind_pure)
     apply (rule computes_allocate)
    apply (rule computes_return; simp add: hidden_lives_def hidden_value_def store_simps
        del: append_assoc)
    done
next
  case False
  show ?thesis
    unfolding get_init_hidden_st_def get_init_hidden_def if_not_P [OF False]
    apply (rule computes_bind)
     apply (rule computes_size; simp add: assms)
    apply (rule computes_bind_pure)
     apply (rule computes_allocate)
    apply (rule computes_return; simp add: hidden_lives_def hidden_value_def store_simps
        del: append_assoc)
    done
qed

lemma apply_one_direction_st_computes:
  fixes x :: "('a::zero) tref"
  assumes "lives \<sigma> x" and "value_of \<sigma> x = vx"
  shows "computes (apply_one_direction_st is_contiguous self x rnn stack) \<sigma> lives value_of
           (apply_one_direction self vx rnn stack)"
  unfolding apply_one_direction_st_def apply_one_direction_def
  apply (rule computes_bind)
   apply (rule computes_split; simp add: assms)
  apply (rule computes_bind)
   apply (rule computes_cat; simp add: store_simps del: append_assoc)
  apply (rule computes_bind)
   apply (rule get_init_hidden_st_computes; simp add: store_simps del: append_assoc)
  apply (rule computes_bind)
   apply (rule computes_shared_view; simp add: store_simps del: append_assoc)
  apply (rule computes_bind)
   apply (rule computes_rnn_call; simp add: store_simps del: append_assoc)
  apply (rule computes_bind)
   apply (rule computes_size; simp add: store_simps del: append_assoc)
  apply (rule computes_bind)
   apply (rule computes_size; simp add: store_simps del: append_assoc)
  apply (rule computes_bind)
   apply (rule computes_size; simp add: store_simps del: append_assoc)
  apply (rule computes_bind_pure)
   apply (rule computes_contiguous; simp add: store_simps del: append_assoc)
  apply (rule computes_bind)
   apply (rule computes_shared_view; simp add: store_simps del: append_assoc)
  apply (rule computes_bind)
   apply (rule computes_size; simp add: assms store_simps del: append_assoc)
  apply (rule computes_bind)
   apply (rule computes_split; simp add: store_simps del: append_assoc)
  apply (rule computes_cat; simp add: store_simps del: append_assoc)
  done

lemma forward_st_computes:
  fixes x :: "('a::zero) tref"
  assumes "lives \<sigma> x" and "value_of \<sigma> x = vx"
  shows "computes (forward_st is_contiguous self x) \<sigma> lives value_of (forward self vx)"
  unfolding forward_st_def forward_def
  apply (rule computes_bind)
   apply (rule get_valid_patches_st_computes; simp add: assms)
  apply (rule computes_bind)
   apply (rule computes_shared_view; simp add: store_simps del: append_assoc)
  apply (rule computes_bind)
   apply (rule apply_one_direction_st_computes; simp add: store_simps del: append_assoc)
  apply (rule computes_bind)
   apply (rule computes_shared_view; simp add: store_simps del: append_assoc)
  apply (rule computes_bind)
   apply (rule apply_one_direction_st_computes; simp add: store_simps del: append_assoc)
  apply (rule computes_shared_view; simp add: store_simps del: append_assoc)
  done

text \<open>
  C10.  For every input tensor \<open>x\<close> that lives in the store, a call of \<open>forward\<close>, whether
  it returns or raises, leaves a store that extends the old one: the storage of \<open>x\<close> holds
  the same elements and \<open>x\<close> has the same value before and after.  The call computes what
  the embedding on values says: the same error, or a tensor whose value is the value-level
  result.
\<close>

theorem forward_leaves_input_unchanged:
  fixes x :: "('a::zero) tref"
  assumes "lives \<sigma> x"
  shows "\<exists>r \<sigma>' ext. forward_st is_contiguous self x \<sigma> = (r, \<sigma>') \<and> \<sigma>' = \<sigma> @ ext
     \<and> \<sigma>' ! storage x = \<sigma> ! storage x
     \<and> value_of \<sigma>' x = value_of \<sigma> x
     \<and> (case r of
           Inl e \<Rightarrow> forward self (value_of \<sigma> x) = Inl e
         | Inr y \<Rightarrow> lives \<sigma>' y \<and> forward self (value_of \<sigma> x) = Inr (value_of \<sigma>' y))"
proof -
  have c: "computes (forward_st is_contiguous self x) \<sigma> lives value_of
             (forward self (value_of \<sigma> x))"
    using assms by (rule forward_st_computes) simp
  obtain r \<sigma>' where r: "forward_st is_contiguous self x \<sigma> = (r, \<sigma>')"
    by (cases "forward_st is_contiguous self x \<sigma>") auto
  from c r obtain ext where ext: "\<sigma>' = \<sigma> @ ext"
    and res: "case r of
           Inl e \<Rightarrow> forward self (value_of \<sigma> x) = Inl e
         | Inr y \<Rightarrow> lives \<sigma>' y \<and> forward self (value_of \<sigma> x) = Inr (value_of \<sigma>' y)"
    by (auto simp: computes_def)
  have "\<sigma>' ! storage x = \<sigma> ! storage x"
    using assms ext by (simp add: lives_def nth_append)
  moreover have "value_of \<sigma>' x = value_of \<sigma> x"
    using assms ext by (simp add: value_of_append)
  ultimately show ?thesis using r ext res by blast
qed

text \<open>A \<open>2 \<times> 4\<close> image in a store of its own, through the concrete layer.\<close>

theorem forward_leaves_input_unchanged_witness:
  "lives [[10, 11, 12, 13, 14, 15, 16, 17::real]]
     \<lparr>storage = 0, reading = (\<lambda>s. \<lparr>shape = [1, 1, 2, 4], data = s\<rparr>)\<rparr>
   \<and> (\<exists>r \<sigma>'. forward_st (\<lambda>t. False) (example_layer 2)
                \<lparr>storage = 0, reading = (\<lambda>s. \<lparr>shape = [1, 1, 2, 4], data = s\<rparr>)\<rparr>
                [[10, 11, 12, 13, 14, 15, 16, 17]] = (r, \<sigma>')
          \<and> \<sigma>' ! 0 = [10, 11, 12, 13, 14, 15, 16, 17]
          \<and> (\<exists>y. r = Inr y \<and> shape (value_of \<sigma>' y) = [1, 2, 1, 2]))"
proof -
  let ?s = "[[10, 11, 12, 13, 14, 15, 16, 17::real]]"
  let ?x = "\<lparr>storage = 0, reading = (\<lambda>s. \<lparr>shape = [1, 1, 2, 4], data = s::real list\<rparr>)\<rparr>"
  let ?L = "example_layer 2"
  have l: "lives ?s ?x" by (simp add: lives_def)
  have sh: "shape (value_of ?s ?x) = [1, 1, 2, 4]" by (simp add: value_of_def)
  have ws: "window_size ?L = (int 2, int 2)" by (simp add: example_layer_fields)
  have "\<exists>patches y. get_valid_patches ?L (value_of ?s ?x) = Inr patches
     \<and> forward ?L (value_of ?s ?x) = Inr y
     \<and> shape y = [1, 2 * hidden_dim ?L, 2 div 2, 4 div 2] \<and> well_formed y
     \<and> (\<forall>b k i j. b < 1 \<and> k < 2 * hidden_dim ?L \<and> i < 2 div 2 \<and> j < 4 div 2 \<longrightarrow>
           elem y [b, k, i, j] = second_sweep ?L patches b j ! i ! k)"
    by (rule forward_elements [OF ws _ sh])
      (simp_all add: example_layer_fields example_rnn_fields)
  then obtain v where v: "forward ?L (value_of ?s ?x) = Inr v" and vsh: "shape v = [1, 2, 1, 2]"
    by (auto simp: example_layer_fields)
  from forward_leaves_input_unchanged [OF l, of "\<lambda>t. False" ?L]
  obtain r \<sigma>' where r: "forward_st (\<lambda>t. False) ?L ?x ?s = (r, \<sigma>')"
    and same: "\<sigma>' ! storage ?x = ?s ! storage ?x"
    and res: "case r of
           Inl e \<Rightarrow> forward ?L (value_of ?s ?x) = Inl e
         | Inr y \<Rightarrow> lives \<sigma>' y \<and> forward ?L (value_of ?s ?x) = Inr (value_of \<sigma>' y)"
    by blast
  from res v obtain y where y: "r = Inr y" and "value_of \<sigma>' y = v"
    by (cases r) auto
  then have "shape (value_of \<sigma>' y) = [1, 2, 1, 2]" using vsh by simp
  moreover have "\<sigma>' ! 0 = [10, 11, 12, 13, 14, 15, 16, 17]" using same by simp
  ultimately show ?thesis using l r y by blast
qed

end
